theory Spec2Isabelle
  imports Main "HOL-Library.Word"
begin

section \<open>Values, errors and the host\<close>

text \<open>
  The module \<open>packages/near-sdk-js/src/utils.ts\<close> works on untyped JavaScript values.
  A value is a member of the datatype below.  A string is a list of 8-bit characters
  (code units below 256), a bigint is an \<open>int\<close>, a \<open>Date\<close> object holds its time value
  in milliseconds (\<open>None\<close> for an invalid date), an object is the list of its own
  properties in creation order.  The IEEE numbers of the engine are not interpreted:
  their type is the parameter \<open>'n\<close> and every operation on them is a field of the host.
\<close>

type_synonym byte = "8 word"
type_synonym Uint8Array = "byte list"

datatype 'n jsval =
    JUndefined
  | JNull
  | JBool bool
  | JNum 'n
  | JStr string
  | JBigInt int
  | JDate "int option"
  | JArr "'n jsval list"
  | JObj "(string \<times> 'n jsval) list"

text \<open>The built-in that threw, and the exceptions the module can raise or let through.\<close>

datatype thrower = In_JSON_parse | In_JSON_stringify | In_BigInt | In_Date | In_toISOString
  | In_ToPrimitive | In_call

datatype error =
    SyntaxError thrower
  | TypeError thrower
  | RangeError thrower
  | Error string

text \<open>\<open>interface Env\<close> (lines 3 to 8): the codec supplied by the host.  The source only
  declares it (\<open>declare const env: Env\<close>), so it is a parameter.  \<open>serialize\<close> hands
  \<open>utf8_string_to_uint8array\<close> whatever \<open>JSON.stringify\<close> returned, which is \<open>undefined\<close>
  (here \<open>None\<close>) when the root value has no JSON text.\<close>

record Env =
  uint8array_to_latin1_string :: "Uint8Array \<Rightarrow> string"
  uint8array_to_utf8_string :: "Uint8Array \<Rightarrow> string"
  latin1_string_to_uint8array :: "string \<Rightarrow> Uint8Array"
  utf8_string_to_uint8array :: "string option \<Rightarrow> Uint8Array"

text \<open>The engine: the environment object and the operations on numbers and on dates
  whose results depend on IEEE arithmetic or on the implementation.\<close>

record 'n host =
  env :: Env
  number_toString :: "'n \<Rightarrow> string"
  number_parse :: "string \<Rightarrow> 'n"
  number_isFinite :: "'n \<Rightarrow> bool"
  number_toBoolean :: "'n \<Rightarrow> bool"
  number_integral :: "'n \<Rightarrow> int option"
  number_truncate :: "'n \<Rightarrow> int option"
  date_parse :: "string \<Rightarrow> int option"
  date_toISOString :: "int \<Rightarrow> string"
  date_toString :: "int option \<Rightarrow> string"

section \<open>Built-ins of the language that the module calls\<close>

subsection \<open>Types, property access, truthiness\<close>

fun typeof :: "'n jsval \<Rightarrow> string" where
  "typeof JUndefined = ''undefined''"
| "typeof JNull = ''object''"
| "typeof (JBool b) = ''boolean''"
| "typeof (JNum n) = ''number''"
| "typeof (JStr s) = ''string''"
| "typeof (JBigInt i) = ''bigint''"
| "typeof (JDate t) = ''object''"
| "typeof (JArr xs) = ''object''"
| "typeof (JObj kvs) = ''object''"

text \<open>\<open>ToBoolean\<close>, the test of \<open>if (!expression)\<close>.\<close>

fun ToBoolean :: "'n host \<Rightarrow> 'n jsval \<Rightarrow> bool" where
  "ToBoolean h JUndefined = False"
| "ToBoolean h JNull = False"
| "ToBoolean h (JBool b) = b"
| "ToBoolean h (JNum n) = number_toBoolean h n"
| "ToBoolean h (JStr s) = (s \<noteq> [])"
| "ToBoolean h (JBigInt i) = (i \<noteq> 0)"
| "ToBoolean h (JDate t) = True"
| "ToBoolean h (JArr xs) = True"
| "ToBoolean h (JObj kvs) = True"

text \<open>Decimal digits of a natural number and \<open>BigInt.prototype.toString\<close>.\<close>

definition digit_char :: "nat \<Rightarrow> char" where
  "digit_char d = char_of (48 + d)"

fun digits10 :: "nat \<Rightarrow> string" where
  "digits10 n = (if n < 10 then [digit_char n] else digits10 (n div 10) @ [digit_char (n mod 10)])"

declare digits10.simps [simp del]

definition bigint_toString :: "int \<Rightarrow> string" where
  "bigint_toString i = (if i < 0 then CHR ''-'' # digits10 (nat (- i)) else digits10 (nat i))"

text \<open>\<open>Object.keys\<close>: the own enumerable string keys.  An array has its indices,
  a \<open>Date\<close> object and a primitive have none.\<close>

fun Object_keys :: "'n jsval \<Rightarrow> string list" where
  "Object_keys (JObj kvs) = map fst kvs"
| "Object_keys (JArr xs) = map digits10 [0..<length xs]"
| "Object_keys v = []"

text \<open>\<open>value[key]\<close> for the two keys the module reads, \<open>"value"\<close> and \<open>"typeInfo"\<close>:
  an own property of a plain object, \<open>undefined\<close> on every other value that is not
  \<open>null\<close> or \<open>undefined\<close> (no prototype has a property of either name).\<close>

fun get_property :: "'n jsval \<Rightarrow> string \<Rightarrow> 'n jsval" where
  "get_property (JObj kvs) key = (case map_of kvs key of None \<Rightarrow> JUndefined | Some v \<Rightarrow> v)"
| "get_property v key = JUndefined"

subsection \<open>Conversions to primitives, \<open>BigInt(v)\<close> and \<open>new Date(v)\<close>\<close>

text \<open>Errors propagate from the first element that raises one.\<close>

fun sequence_sum :: "('e + 'a) list \<Rightarrow> 'e + 'a list" where
  "sequence_sum [] = Inr []"
| "sequence_sum (r # rs) =
     (case r of
        Inl e \<Rightarrow> Inl e
      | Inr x \<Rightarrow> (case sequence_sum rs of Inl e \<Rightarrow> Inl e | Inr xs \<Rightarrow> Inr (x # xs)))"

fun join_comma :: "string list \<Rightarrow> string" where
  "join_comma [] = []"
| "join_comma [s] = s"
| "join_comma (s # t # ss) = s @ CHR '','' # join_comma (t # ss)"

text \<open>\<open>ToString\<close>.  An array joins the strings of its elements (\<open>null\<close> and
  \<open>undefined\<close> give the empty string); a plain object gives \<open>[object Object]\<close>,
  unless an own property named \<open>toString\<close> (never callable here) shadows the inherited
  method, and then no conversion is left.\<close>

fun ToString :: "'n host \<Rightarrow> 'n jsval \<Rightarrow> error + string" where
  "ToString h JUndefined = Inr ''undefined''"
| "ToString h JNull = Inr ''null''"
| "ToString h (JBool b) = Inr (if b then ''true'' else ''false'')"
| "ToString h (JNum n) = Inr (number_toString h n)"
| "ToString h (JStr s) = Inr s"
| "ToString h (JBigInt i) = Inr (bigint_toString i)"
| "ToString h (JDate t) = Inr (date_toString h t)"
| "ToString h (JArr xs) =
     (case sequence_sum
             (map (\<lambda>x. if x = JUndefined \<or> x = JNull then Inr [] else ToString h x) xs) of
        Inl e \<Rightarrow> Inl e
      | Inr strs \<Rightarrow> Inr (join_comma strs))"
| "ToString h (JObj kvs) =
     (if ''toString'' \<in> set (map fst kvs) then Inl (TypeError In_ToPrimitive)
      else Inr ''[object Object]'')"

text \<open>\<open>StringToBigInt\<close>: white space is trimmed, the empty string is 0, a decimal
  literal may carry a sign, a literal with a prefix \<open>0x\<close>, \<open>0o\<close> or \<open>0b\<close> may not.\<close>

definition is_StrWhiteSpaceChar :: "char \<Rightarrow> bool" where
  "is_StrWhiteSpaceChar c = ((of_char c :: nat) \<in> {9, 10, 11, 12, 13, 32, 160})"

definition digit_value :: "char \<Rightarrow> nat" where
  "digit_value c =
     (let n = (of_char c :: nat) in
      if 48 \<le> n \<and> n \<le> 57 then n - 48
      else if 97 \<le> n \<and> n \<le> 122 then n - 87
      else if 65 \<le> n \<and> n \<le> 90 then n - 55
      else 36)"

fun parse_digits :: "nat \<Rightarrow> nat \<Rightarrow> string \<Rightarrow> nat option" where
  "parse_digits base acc [] = Some acc"
| "parse_digits base acc (c # cs) =
     (if digit_value c < base then parse_digits base (acc * base + digit_value c) cs else None)"

definition parse_integer :: "nat \<Rightarrow> string \<Rightarrow> int option" where
  "parse_integer base ds = (if ds = [] then None else map_option int (parse_digits base 0 ds))"

definition StringToBigInt :: "string \<Rightarrow> int option" where
  "StringToBigInt str =
     (let text = rev (dropWhile is_StrWhiteSpaceChar (rev (dropWhile is_StrWhiteSpaceChar str)))
      in case text of
           [] \<Rightarrow> Some 0
         | c # cs \<Rightarrow>
             if c = CHR ''+'' then parse_integer 10 cs
             else if c = CHR ''-'' then map_option uminus (parse_integer 10 cs)
             else if c = CHR ''0'' \<and> cs \<noteq> [] \<and> hd cs \<in> {CHR ''x'', CHR ''X''} then parse_integer 16 (tl cs)
             else if c = CHR ''0'' \<and> cs \<noteq> [] \<and> hd cs \<in> {CHR ''o'', CHR ''O''} then parse_integer 8 (tl cs)
             else if c = CHR ''0'' \<and> cs \<noteq> [] \<and> hd cs \<in> {CHR ''b'', CHR ''B''} then parse_integer 2 (tl cs)
             else parse_integer 10 text)"

definition BigInt_of_string :: "string \<Rightarrow> error + int" where
  "BigInt_of_string s =
     (case StringToBigInt s of None \<Rightarrow> Inl (SyntaxError In_BigInt) | Some i \<Rightarrow> Inr i)"

text \<open>\<open>BigInt(v)\<close>: a number must be integral, \<open>null\<close> and \<open>undefined\<close> have no
  bigint, an object is first converted to a primitive (a \<open>Date\<close> to its time value,
  an array or plain object to a string).\<close>

fun BigInt :: "'n host \<Rightarrow> 'n jsval \<Rightarrow> error + int" where
  "BigInt h JUndefined = Inl (TypeError In_BigInt)"
| "BigInt h JNull = Inl (TypeError In_BigInt)"
| "BigInt h (JBool b) = Inr (if b then 1 else 0)"
| "BigInt h (JNum n) =
     (case number_integral h n of None \<Rightarrow> Inl (RangeError In_BigInt) | Some i \<Rightarrow> Inr i)"
| "BigInt h (JStr s) = BigInt_of_string s"
| "BigInt h (JBigInt i) = Inr i"
| "BigInt h (JDate t) = (case t of None \<Rightarrow> Inl (RangeError In_BigInt) | Some i \<Rightarrow> Inr i)"
| "BigInt h v = (case ToString h v of Inl e \<Rightarrow> Inl e | Inr s \<Rightarrow> BigInt_of_string s)"

definition TimeClip :: "int option \<Rightarrow> int option" where
  "TimeClip t =
     (case t of
        None \<Rightarrow> None
      | Some i \<Rightarrow> if \<bar>i\<bar> > 8640000000000000 then None else Some i)"

text \<open>\<open>new Date(v)\<close>, as the time value of the new object: a string is parsed by the
  host, another primitive is converted to a number, a bigint has no number.\<close>

fun Date_new :: "'n host \<Rightarrow> 'n jsval \<Rightarrow> error + int option" where
  "Date_new h (JDate t) = Inr t"
| "Date_new h (JStr s) = Inr (date_parse h s)"
| "Date_new h JUndefined = Inr None"
| "Date_new h JNull = Inr (Some 0)"
| "Date_new h (JBool b) = Inr (Some (if b then 1 else 0))"
| "Date_new h (JNum n) = Inr (TimeClip (number_truncate h n))"
| "Date_new h (JBigInt i) = Inl (TypeError In_Date)"
| "Date_new h v = (case ToString h v of Inl e \<Rightarrow> Inl e | Inr s \<Rightarrow> Inr (date_parse h s))"

definition Date_toISOString :: "'n host \<Rightarrow> int option \<Rightarrow> error + string" where
  "Date_toISOString h t =
     (case t of None \<Rightarrow> Inl (RangeError In_toISOString) | Some i \<Rightarrow> Inr (date_toISOString h i))"

text \<open>The \<open>toJSON\<close> step of \<open>JSON.stringify\<close>: only a \<open>Date\<close> object has the method;
  an invalid date gives \<open>null\<close>.\<close>

fun toJSON :: "'n host \<Rightarrow> 'n jsval \<Rightarrow> 'n jsval" where
  "toJSON h (JDate t) = (case t of None \<Rightarrow> JNull | Some i \<Rightarrow> JStr (date_toISOString h i))"
| "toJSON h v = v"

section \<open>Constants of the module\<close>

definition TYPE_KEY :: string where
  "TYPE_KEY = ''typeInfo''"

text \<open>\<open>enum TypeBrand\<close>, a string enumeration.\<close>

datatype TypeBrand = BIGINT | DATE

fun TypeBrand_value :: "TypeBrand \<Rightarrow> string" where
  "TypeBrand_value BIGINT = ''bigint''"
| "TypeBrand_value DATE = ''date''"

definition ERR_INCONSISTENT_STATE :: string where
  "ERR_INCONSISTENT_STATE =
     ''The collection is an inconsistent state. Did previous smart contract execution terminate unexpectedly?''"

definition ERR_INDEX_OUT_OF_BOUNDS :: string where
  "ERR_INDEX_OUT_OF_BOUNDS = ''Index out of bounds''"

section \<open>\<open>JSON.stringify\<close> with the replacer of \<open>serialize\<close>\<close>

text \<open>The function passed to \<open>JSON.stringify\<close> at lines 106 to 126.  Its first argument
  is \<open>this[key]\<close>, the property as the holder has it, its second is \<open>value\<close>, the
  property after the \<open>toJSON\<close> step.\<close>

definition replacer :: "'n host \<Rightarrow> 'n jsval \<Rightarrow> 'n jsval \<Rightarrow> error + 'n jsval" where
  "replacer h this_key value =
     (case value of
        JBigInt i \<Rightarrow>
          Inr (JObj [(''value'', JStr (bigint_toString i)), (TYPE_KEY, JStr (TypeBrand_value BIGINT))])
      | _ \<Rightarrow>
          (case this_key of
             JDate t \<Rightarrow>
               (case Date_toISOString h t of
                  Inl e \<Rightarrow> Inl e
                | Inr isoString \<Rightarrow> Inr (JObj [(''value'', JStr isoString), (TYPE_KEY, JStr (TypeBrand_value DATE))]))
           | _ \<Rightarrow> Inr value))"

text \<open>\<open>QuoteJSONString\<close>.\<close>

definition hex_char :: "nat \<Rightarrow> char" where
  "hex_char d = (if d < 10 then char_of (48 + d) else char_of (87 + d))"

definition quote_char :: "char \<Rightarrow> string" where
  "quote_char c =
     (let n = (of_char c :: nat) in
      if n = 8 then [CHR 0x5C, CHR ''b'']
      else if n = 9 then [CHR 0x5C, CHR ''t'']
      else if n = 10 then [CHR 0x5C, CHR ''n'']
      else if n = 12 then [CHR 0x5C, CHR ''f'']
      else if n = 13 then [CHR 0x5C, CHR ''r'']
      else if n = 34 then [CHR 0x5C, CHR 0x22]
      else if n = 92 then [CHR 0x5C, CHR 0x5C]
      else if n < 32 then [CHR 0x5C, CHR ''u'', CHR ''0'', CHR ''0'', hex_char (n div 16), hex_char (n mod 16)]
      else [c])"

definition QuoteJSONString :: "string \<Rightarrow> string" where
  "QuoteJSONString s = CHR 0x22 # concat (map quote_char s) @ [CHR 0x22]"

text \<open>The measure under which \<open>SerializeJSONProperty\<close> terminates: the envelope that
  the replacer returns for a bigint or a date is lighter than the value it replaces.\<close>

fun weight :: "'n jsval \<Rightarrow> nat" where
  "weight (JBigInt i) = 3"
| "weight (JDate t) = 3"
| "weight (JArr xs) = Suc (sum_list (map weight xs))"
| "weight (JObj kvs) = Suc (sum_list (map (\<lambda>kv. weight (snd kv)) kvs))"
| "weight v = 0"

lemma weight_replacer:
  "replacer h v (toJSON h v) = Inr w \<Longrightarrow> weight w \<le> weight v"
  by (cases v) (auto simp: replacer_def TYPE_KEY_def Date_toISOString_def
      split: option.splits sum.splits)

lemma weight_element: "x \<in> set xs \<Longrightarrow> weight x \<le> sum_list (map weight xs)"
  by (induction xs) auto

lemma weight_member: "kv \<in> set kvs \<Longrightarrow> weight (snd kv) \<le> sum_list (map (\<lambda>kv. weight (snd kv)) kvs)"
  by (induction kvs) auto

text \<open>\<open>SerializeJSONProperty\<close> with that replacer and no indentation.  The argument is
  the property as the holder has it.  The result is the JSON text, or \<open>None\<close> for
  \<open>undefined\<close> (a property that is left out of an object and written \<open>null\<close> in an
  array).\<close>

function SerializeJSONProperty :: "'n host \<Rightarrow> 'n jsval \<Rightarrow> error + string option" where
  "SerializeJSONProperty h holder_key =
     (case replacer h holder_key (toJSON h holder_key) of
        Inl e \<Rightarrow> Inl e
      | Inr value \<Rightarrow>
          (case value of
             JUndefined \<Rightarrow> Inr None
           | JNull \<Rightarrow> Inr (Some ''null'')
           | JBool b \<Rightarrow> Inr (Some (if b then ''true'' else ''false''))
           | JNum n \<Rightarrow> Inr (Some (if number_isFinite h n then number_toString h n else ''null''))
           | JStr s \<Rightarrow> Inr (Some (QuoteJSONString s))
           | JBigInt i \<Rightarrow> Inl (TypeError In_JSON_stringify)
           | JDate t \<Rightarrow> Inr (Some ''{}'')
           | JArr xs \<Rightarrow>
               (case sequence_sum (map (SerializeJSONProperty h) xs) of
                  Inl e \<Rightarrow> Inl e
                | Inr strs \<Rightarrow>
                    Inr (Some (''['' @ join_comma (map (\<lambda>strP. case strP of None \<Rightarrow> ''null'' | Some str \<Rightarrow> str) strs) @ '']'')))
           | JObj kvs \<Rightarrow>
               (case sequence_sum (map (\<lambda>kv. map_sum id (Pair (fst kv)) (SerializeJSONProperty h (snd kv))) kvs) of
                  Inl e \<Rightarrow> Inl e
                | Inr members \<Rightarrow>
                    Inr (Some (''{'' @ join_comma (concat (map (\<lambda>m. case snd m of None \<Rightarrow> [] | Some str \<Rightarrow> [QuoteJSONString (fst m) @ '':'' @ str]) members)) @ ''}'')))))"
  by pat_completeness auto
termination
proof (relation "measure (\<lambda>(h, v). weight v)")
  show "wf (measure (\<lambda>(h, v). weight v))" by simp
next
  fix h :: "'n host" and holder_key w :: "'n jsval" and xs x
  assume "replacer h holder_key (toJSON h holder_key) = Inr w" "w = JArr xs" "x \<in> set xs"
  then show "((h, x), (h, holder_key)) \<in> measure (\<lambda>(h, v). weight v)"
    using weight_replacer [of h holder_key w] weight_element [of x xs] by simp
next
  fix h :: "'n host" and holder_key w :: "'n jsval" and kvs kv
  assume "replacer h holder_key (toJSON h holder_key) = Inr w" "w = JObj kvs" "kv \<in> set kvs"
  then show "((h, snd kv), (h, holder_key)) \<in> measure (\<lambda>(h, v). weight v)"
    using weight_replacer [of h holder_key w] weight_member [of kv kvs] by simp
qed

declare SerializeJSONProperty.simps [simp del]

text \<open>\<open>JSON.stringify(value, replacer)\<close>: the root is the property \<open>""\<close> of a wrapper
  object.\<close>

definition JSON_stringify :: "'n host \<Rightarrow> 'n jsval \<Rightarrow> error + string option" where
  "JSON_stringify h value = SerializeJSONProperty h value"

section \<open>\<open>JSON.parse\<close> with a reviver\<close>

text \<open>The parser reads the JSON grammar from a string and returns the value and the
  rest of the input.  A malformed text is a \<open>SyntaxError\<close>.  The strings of this model
  have no code unit above 255, so an escape \<open>\uXXXX\<close> that names one is reported apart,
  as \<open>OutsideModel\<close>: the model says nothing about such a text.\<close>

abbreviation parse_error :: "error + 'a" where
  "parse_error \<equiv> Inl (SyntaxError In_JSON_parse)"

definition OutsideModel :: "error + 'a" where
  "OutsideModel = Inl (Error ''a code unit above 255 is outside the model'')"

definition is_ws :: "char \<Rightarrow> bool" where
  "is_ws c = ((of_char c :: nat) \<in> {9, 10, 13, 32})"

definition skip_ws :: "string \<Rightarrow> string" where
  "skip_ws s = dropWhile is_ws s"

definition is_digit :: "char \<Rightarrow> bool" where
  "is_digit c = (48 \<le> (of_char c :: nat) \<and> (of_char c :: nat) \<le> 57)"

definition unescape :: "char \<Rightarrow> char option" where
  "unescape e =
     (if e = CHR 0x22 then Some (CHR 0x22)
      else if e = CHR 0x5C then Some (CHR 0x5C)
      else if e = CHR ''/'' then Some CHR ''/''
      else if e = CHR ''b'' then Some (CHR 0x08)
      else if e = CHR ''f'' then Some (CHR 0x0C)
      else if e = CHR ''n'' then Some (CHR 0x0A)
      else if e = CHR ''r'' then Some (CHR 0x0D)
      else if e = CHR ''t'' then Some (CHR 0x09)
      else None)"

text \<open>The characters of a string literal, after the opening quote and up to the
  closing one.\<close>

fun parse_string_chars :: "string \<Rightarrow> error + string \<times> string" where
  "parse_string_chars [] = parse_error"
| "parse_string_chars (c # cs) =
     (if c = CHR 0x22 then Inr ([], cs)
      else if c = CHR 0x5C then
        (case cs of
           [] \<Rightarrow> parse_error
         | e # cs1 \<Rightarrow>
             if e = CHR ''u'' then
               (case cs1 of
                  x1 # x2 # x3 # x4 # cs2 \<Rightarrow>
                    if digit_value x1 < 16 \<and> digit_value x2 < 16 \<and> digit_value x3 < 16 \<and> digit_value x4 < 16
                    then
                      (let n = ((digit_value x1 * 16 + digit_value x2) * 16 + digit_value x3) * 16 + digit_value x4
                       in if n < 256 then map_sum id (apfst ((#) (char_of n))) (parse_string_chars cs2)
                          else OutsideModel)
                    else parse_error
                | _ \<Rightarrow> parse_error)
             else
               (case unescape e of
                  None \<Rightarrow> parse_error
                | Some x \<Rightarrow> map_sum id (apfst ((#) x)) (parse_string_chars cs1)))
      else if (of_char c :: nat) < 32 then parse_error
      else map_sum id (apfst ((#) c)) (parse_string_chars cs))"

text \<open>The longest prefix that is a JSON number: an optional minus sign, an integer part
  without a leading zero, an optional fraction, an optional exponent.\<close>

definition lex_digits :: "string \<Rightarrow> (string \<times> string) option" where
  "lex_digits s =
     (if takeWhile is_digit s = [] then None else Some (takeWhile is_digit s, dropWhile is_digit s))"

definition lex_int :: "string \<Rightarrow> (string \<times> string) option" where
  "lex_int s =
     (case s of
        [] \<Rightarrow> None
      | c # cs \<Rightarrow>
          if c = CHR ''0'' then Some ([c], cs)
          else if is_digit c then Some (c # takeWhile is_digit cs, dropWhile is_digit cs)
          else None)"

definition lex_frac :: "string \<Rightarrow> (string \<times> string) option" where
  "lex_frac s =
     (case s of
        [] \<Rightarrow> Some ([], s)
      | c # cs \<Rightarrow>
          if c = CHR ''.'' then
            (case lex_digits cs of None \<Rightarrow> None | Some (ds, rest) \<Rightarrow> Some (c # ds, rest))
          else Some ([], s))"

definition lex_sign :: "string \<Rightarrow> string \<times> string" where
  "lex_sign s =
     (case s of
        [] \<Rightarrow> ([], s)
      | c # cs \<Rightarrow> if c = CHR ''+'' \<or> c = CHR ''-'' then ([c], cs) else ([], s))"

definition lex_exp :: "string \<Rightarrow> (string \<times> string) option" where
  "lex_exp s =
     (case s of
        [] \<Rightarrow> Some ([], s)
      | c # cs \<Rightarrow>
          if c = CHR ''e'' \<or> c = CHR ''E'' then
            (case lex_digits (snd (lex_sign cs)) of
               None \<Rightarrow> None
             | Some (ds, rest) \<Rightarrow> Some (c # fst (lex_sign cs) @ ds, rest))
          else Some ([], s))"

definition lex_number :: "string \<Rightarrow> (string \<times> string) option" where
  "lex_number s =
     (let minus = (if s \<noteq> [] \<and> hd s = CHR ''-'' then ''-'' else []);
          s1 = (if s \<noteq> [] \<and> hd s = CHR ''-'' then tl s else s)
      in case lex_int s1 of
           None \<Rightarrow> None
         | Some (ip, s2) \<Rightarrow>
             (case lex_frac s2 of
                None \<Rightarrow> None
              | Some (fp, s3) \<Rightarrow>
                  (case lex_exp s3 of
                     None \<Rightarrow> None
                   | Some (ep, s4) \<Rightarrow> Some (minus @ ip @ fp @ ep, s4))))"

text \<open>The members of an object literal define its properties one after the other: a
  repeated key overwrites the value and keeps its place.  The keys of the finished
  object are in the order of \<open>OrdinaryOwnPropertyKeys\<close>: array indices first, ascending,
  then the other keys as created.\<close>

definition CreateDataProperty :: "(string \<times> 'a) list \<Rightarrow> string \<times> 'a \<Rightarrow> (string \<times> 'a) list" where
  "CreateDataProperty kvs kv =
     (if fst kv \<in> set (map fst kvs)
      then map (\<lambda>p. if fst p = fst kv then kv else p) kvs
      else kvs @ [kv])"

definition array_index :: "string \<Rightarrow> nat option" where
  "array_index k =
     (case parse_digits 10 0 k of
        None \<Rightarrow> None
      | Some n \<Rightarrow> if k \<noteq> [] \<and> n < 4294967295 \<and> digits10 n = k then Some n else None)"

definition OrdinaryOwnPropertyKeys :: "(string \<times> 'a) list \<Rightarrow> (string \<times> 'a) list" where
  "OrdinaryOwnPropertyKeys kvs =
     sort_key (\<lambda>kv. the (array_index (fst kv))) (filter (\<lambda>kv. array_index (fst kv) \<noteq> None) kvs)
     @ filter (\<lambda>kv. array_index (fst kv) = None) kvs"

definition object_of_members :: "(string \<times> 'n jsval) list \<Rightarrow> 'n jsval" where
  "object_of_members members = JObj (OrdinaryOwnPropertyKeys (foldl CreateDataProperty [] members))"

lemma skip_ws_Cons_length: "skip_ws s = c # cs \<Longrightarrow> length cs < length s"
proof -
  assume a: "skip_ws s = c # cs"
  have "length (skip_ws s) \<le> length s"
    unfolding skip_ws_def by (rule length_dropWhile_le)
  with a show ?thesis by simp
qed

text \<open>\<open>parse_value\<close> reads one value, \<open>parse_elements\<close> the elements of a non-empty
  array up to the closing bracket, \<open>parse_members\<close> the members of a non-empty object up
  to the closing brace.  The comparisons of lengths hold whenever they are reached
  (lemma \<open>parse_shorter\<close>); they are written out so that the recursion is seen to end.\<close>

function parse_value :: "'n host \<Rightarrow> string \<Rightarrow> error + 'n jsval \<times> string"
  and parse_elements :: "'n host \<Rightarrow> string \<Rightarrow> error + 'n jsval list \<times> string"
  and parse_members :: "'n host \<Rightarrow> string \<Rightarrow> error + (string \<times> 'n jsval) list \<times> string"
where
  "parse_value h s =
     (case skip_ws s of
        [] \<Rightarrow> parse_error
      | c # cs \<Rightarrow>
          if c = CHR ''{'' then
            (case skip_ws cs of
               [] \<Rightarrow> parse_error
             | d # ds \<Rightarrow>
                 if d = CHR ''}'' then Inr (JObj [], ds)
                 else (case parse_members h cs of
                         Inl e \<Rightarrow> Inl e
                       | Inr (members, rest) \<Rightarrow> Inr (object_of_members members, rest)))
          else if c = CHR ''['' then
            (case skip_ws cs of
               [] \<Rightarrow> parse_error
             | d # ds \<Rightarrow>
                 if d = CHR '']'' then Inr (JArr [], ds)
                 else (case parse_elements h cs of
                         Inl e \<Rightarrow> Inl e
                       | Inr (xs, rest) \<Rightarrow> Inr (JArr xs, rest)))
          else if c = CHR 0x22 then
            (case parse_string_chars cs of
               Inl e \<Rightarrow> Inl e
             | Inr (str, rest) \<Rightarrow> Inr (JStr str, rest))
          else if c = CHR ''-'' \<or> is_digit c then
            (case lex_number (c # cs) of
               None \<Rightarrow> parse_error
             | Some (tok, rest) \<Rightarrow> Inr (JNum (number_parse h tok), rest))
          else if take 4 (c # cs) = ''null'' then Inr (JNull, drop 4 (c # cs))
          else if take 4 (c # cs) = ''true'' then Inr (JBool True, drop 4 (c # cs))
          else if take 5 (c # cs) = ''false'' then Inr (JBool False, drop 5 (c # cs))
          else parse_error)"
| "parse_elements h s =
     (case parse_value h s of
        Inl e \<Rightarrow> Inl e
      | Inr (x, rest) \<Rightarrow>
          (case skip_ws rest of
             [] \<Rightarrow> parse_error
           | c # cs \<Rightarrow>
               if c = CHR '']'' then Inr ([x], cs)
               else if c = CHR '','' \<and> length cs < length s then
                 (case parse_elements h cs of
                    Inl e \<Rightarrow> Inl e
                  | Inr (xs, rest') \<Rightarrow> Inr (x # xs, rest'))
               else parse_error))"
| "parse_members h s =
     (case skip_ws s of
        [] \<Rightarrow> parse_error
      | q # cs \<Rightarrow>
          if q = CHR 0x22 then
            (case parse_string_chars cs of
               Inl e \<Rightarrow> Inl e
             | Inr (key, rest) \<Rightarrow>
                 (case skip_ws rest of
                    [] \<Rightarrow> parse_error
                  | c # cs1 \<Rightarrow>
                      if c = CHR '':'' \<and> length cs1 < length s then
                        (case parse_value h cs1 of
                           Inl e \<Rightarrow> Inl e
                         | Inr (x, rest1) \<Rightarrow>
                             (case skip_ws rest1 of
                                [] \<Rightarrow> parse_error
                              | d # cs2 \<Rightarrow>
                                  if d = CHR ''}'' then Inr ([(key, x)], cs2)
                                  else if d = CHR '','' \<and> length cs2 < length s then
                                    (case parse_members h cs2 of
                                       Inl e \<Rightarrow> Inl e
                                     | Inr (ms, rest2) \<Rightarrow> Inr ((key, x) # ms, rest2))
                                  else parse_error))
                      else parse_error))
          else parse_error)"
  by pat_completeness auto
termination
  by (relation "measure (\<lambda>a. case a of
        Inl (h, s) \<Rightarrow> 2 * length s
      | Inr (Inl (h, s)) \<Rightarrow> 2 * length s + 1
      | Inr (Inr (h, s)) \<Rightarrow> 2 * length s + 1)")
     (auto dest: skip_ws_Cons_length)

declare parse_value.simps [simp del] parse_elements.simps [simp del] parse_members.simps [simp del]

definition JSON_parse_text :: "'n host \<Rightarrow> string \<Rightarrow> error + 'n jsval" where
  "JSON_parse_text h text =
     (case parse_value h text of
        Inl e \<Rightarrow> Inl e
      | Inr (v, rest) \<Rightarrow> if skip_ws rest = [] then Inr v else parse_error)"

text \<open>\<open>InternalizeJSONProperty\<close>: the members of an array or object are revived first,
  in key order, then the reviver is called on the node.  A member revived to
  \<open>undefined\<close> is deleted from an object and reads as \<open>undefined\<close> in an array.\<close>

fun InternalizeJSONProperty :: "('n jsval \<Rightarrow> error + 'n jsval) \<Rightarrow> 'n jsval \<Rightarrow> error + 'n jsval" where
  "InternalizeJSONProperty reviver (JArr xs) =
     (case sequence_sum (map (InternalizeJSONProperty reviver) xs) of
        Inl e \<Rightarrow> Inl e
      | Inr ys \<Rightarrow> reviver (JArr ys))"
| "InternalizeJSONProperty reviver (JObj kvs) =
     (case sequence_sum (map (\<lambda>kv. map_sum id (Pair (fst kv)) (InternalizeJSONProperty reviver (snd kv))) kvs) of
        Inl e \<Rightarrow> Inl e
      | Inr kvs' \<Rightarrow> reviver (JObj (filter (\<lambda>kv. snd kv \<noteq> JUndefined) kvs')))"
| "InternalizeJSONProperty reviver v = reviver v"

definition JSON_parse :: "'n host \<Rightarrow> string \<Rightarrow> ('n jsval \<Rightarrow> error + 'n jsval) \<Rightarrow> error + 'n jsval" where
  "JSON_parse h text reviver =
     (case JSON_parse_text h text of
        Inl e \<Rightarrow> Inl e
      | Inr unfiltered \<Rightarrow> InternalizeJSONProperty reviver unfiltered)"

section \<open>Regular expressions\<close>

text \<open>The regular expressions that the module uses: character classes, sequence,
  alternative, \<open>*\<close> and \<open>+\<close>.  \<open>RegExp_test\<close> is \<open>test\<close> for a pattern written between
  \<open>^\<close> and \<open>$\<close> without flags: the whole string has to match.  It is computed with
  derivatives.\<close>

datatype regex =
    Never
  | Eps
  | Class "char \<Rightarrow> bool"
  | Seq regex regex
  | Alt regex regex
  | Star regex
  | Plus regex

fun nullable :: "regex \<Rightarrow> bool" where
  "nullable Never = False"
| "nullable Eps = True"
| "nullable (Class P) = False"
| "nullable (Seq r s) = (nullable r \<and> nullable s)"
| "nullable (Alt r s) = (nullable r \<or> nullable s)"
| "nullable (Star r) = True"
| "nullable (Plus r) = nullable r"

fun deriv :: "char \<Rightarrow> regex \<Rightarrow> regex" where
  "deriv c Never = Never"
| "deriv c Eps = Never"
| "deriv c (Class P) = (if P c then Eps else Never)"
| "deriv c (Seq r s) =
     (if nullable r then Alt (Seq (deriv c r) s) (deriv c s) else Seq (deriv c r) s)"
| "deriv c (Alt r s) = Alt (deriv c r) (deriv c s)"
| "deriv c (Star r) = Seq (deriv c r) (Star r)"
| "deriv c (Plus r) = Seq (deriv c r) (Star r)"

fun RegExp_test :: "regex \<Rightarrow> string \<Rightarrow> bool" where
  "RegExp_test r [] = nullable r"
| "RegExp_test r (c # cs) = RegExp_test (deriv c r) cs"

text \<open>The language of a regular expression, against which the matcher is checked.\<close>

definition conc :: "string set \<Rightarrow> string set \<Rightarrow> string set" where
  "conc A B = {a @ b | a b. a \<in> A \<and> b \<in> B}"

inductive_set star :: "string set \<Rightarrow> string set" for A :: "string set" where
  star_empty: "[] \<in> star A"
| star_step: "a \<in> A \<Longrightarrow> w \<in> star A \<Longrightarrow> a @ w \<in> star A"

fun lang :: "regex \<Rightarrow> string set" where
  "lang Never = {}"
| "lang Eps = {[]}"
| "lang (Class P) = {[c] | c. P c}"
| "lang (Seq r s) = conc (lang r) (lang s)"
| "lang (Alt r s) = lang r \<union> lang s"
| "lang (Star r) = star (lang r)"
| "lang (Plus r) = conc (lang r) (star (lang r))"

section \<open>The module\<close>

text \<open>\<open>ACCOUNT_ID_REGEX\<close> (lines 39 and 40):
  \<^verbatim>\<open>/^(([a-z\d]+[-_])*[a-z\d]+\.)*([a-z\d]+[-_])*[a-z\d]+$/\<close>\<close>

definition lower_or_digit :: "char \<Rightarrow> bool" where
  "lower_or_digit c =
     ((97 \<le> (of_char c :: nat) \<and> (of_char c :: nat) \<le> 122) \<or> (48 \<le> (of_char c :: nat) \<and> (of_char c :: nat) \<le> 57))"

definition hyphen_or_underscore :: "char \<Rightarrow> bool" where
  "hyphen_or_underscore c = (c = CHR ''-'' \<or> c = CHR ''_'')"

definition full_stop :: "char \<Rightarrow> bool" where
  "full_stop c = (c = CHR ''.'')"

definition ACCOUNT_ID_LABEL :: regex where
  "ACCOUNT_ID_LABEL =
     Seq (Star (Seq (Plus (Class lower_or_digit)) (Class hyphen_or_underscore)))
         (Plus (Class lower_or_digit))"

definition ACCOUNT_ID_REGEX :: regex where
  "ACCOUNT_ID_REGEX = Seq (Star (Seq ACCOUNT_ID_LABEL (Class full_stop))) ACCOUNT_ID_LABEL"

text \<open>\<open>concat\<close> (lines 48 to 53).\<close>

definition concat_arrays :: "Uint8Array \<Rightarrow> Uint8Array \<Rightarrow> Uint8Array" where
  "concat_arrays array1 array2 = array1 @ array2"

text \<open>\<open>assert\<close> (lines 61 to 68).\<close>

definition assert :: "'n host \<Rightarrow> 'n jsval \<Rightarrow> string \<Rightarrow> error + unit" where
  "assert h expression message =
     (if \<not> ToBoolean h expression then Inl (Error (''assertion failed: '' @ message))
      else Inr ())"

text \<open>\<open>encode\<close> and \<open>decode\<close> (lines 213 to 224), \<open>bytes\<close> and \<open>str\<close> (lines 195 to 206).\<close>

definition encode :: "'n host \<Rightarrow> string option \<Rightarrow> Uint8Array" where
  "encode h s = utf8_string_to_uint8array (env h) s"

definition decode :: "'n host \<Rightarrow> Uint8Array \<Rightarrow> string" where
  "decode h a = uint8array_to_utf8_string (env h) a"

definition bytes :: "'n host \<Rightarrow> string \<Rightarrow> Uint8Array" where
  "bytes h s = latin1_string_to_uint8array (env h) s"

definition str :: "'n host \<Rightarrow> Uint8Array \<Rightarrow> string" where
  "str h a = uint8array_to_latin1_string (env h) a"

text \<open>\<open>serialize\<close> (lines 104 to 128).\<close>

definition serialize :: "'n host \<Rightarrow> 'n jsval \<Rightarrow> error + Uint8Array" where
  "serialize h valueToSerialize =
     (case JSON_stringify h valueToSerialize of
        Inl e \<Rightarrow> Inl e
      | Inr text \<Rightarrow> Inr (encode h text))"

text \<open>The reviver of \<open>deserialize\<close> (lines 131 to 147).\<close>

definition envelope_shape :: "'n jsval \<Rightarrow> bool" where
  "envelope_shape v =
     (v \<noteq> JNull \<and> typeof v = ''object'' \<and> length (Object_keys v) = 2 \<and>
      list_all (\<lambda>key. key \<in> set [''value'', TYPE_KEY]) (Object_keys v))"

definition reviver :: "'n host \<Rightarrow> 'n jsval \<Rightarrow> error + 'n jsval" where
  "reviver h v =
     (if envelope_shape v then
        (if get_property v TYPE_KEY = JStr (TypeBrand_value BIGINT) then
           map_sum id JBigInt (BigInt h (get_property v ''value''))
         else if get_property v TYPE_KEY = JStr (TypeBrand_value DATE) then
           map_sum id JDate (Date_new h (get_property v ''value''))
         else Inr v)
      else Inr v)"

text \<open>\<open>deserialize\<close> (lines 130 to 148).\<close>

definition deserialize :: "'n host \<Rightarrow> Uint8Array \<Rightarrow> error + 'n jsval" where
  "deserialize h valueToDeserialize = JSON_parse h (decode h valueToDeserialize) (reviver h)"

text \<open>Modelled from the spec: the type \<open>GetOptions\<close>, imported from \<open>./types/collections\<close>,
  a file that is not among the sources.  The spec gives its fields, all optional:
  \<open>{ defaultValue?, reconstructor?(decoded) -> T, serializer?(value) -> bytes,
  deserializer?(bytes) -> unknown }\<close>.  An absent function is \<open>None\<close>, an absent default
  value is \<open>undefined\<close>.\<close>

record 'n GetOptions =
  reconstructor :: "('n jsval \<Rightarrow> error + 'n jsval) option"
  defaultValue :: "'n jsval"
  serializer :: "('n jsval \<Rightarrow> error + Uint8Array) option"
  deserializer :: "(Uint8Array \<Rightarrow> error + 'n jsval) option"

text \<open>The operator \<open>??\<close>.\<close>

definition nullish :: "'n jsval \<Rightarrow> 'n jsval \<Rightarrow> 'n jsval" where
  "nullish a b = (if a = JUndefined \<or> a = JNull then b else a)"

text \<open>\<open>getValueWithOptions\<close> (lines 72 to 93).  The bytes are \<open>None\<close> for \<open>null\<close>; the
  options are \<open>None\<close> when the caller passes none, and then the default of the parameter,
  \<open>{ deserializer: deserialize }\<close>, is taken.\<close>

definition getValueWithOptions ::
  "'n host \<Rightarrow> Uint8Array option \<Rightarrow> 'n GetOptions option \<Rightarrow> error + 'n jsval" where
  "getValueWithOptions h value options_arg =
     (let options =
        (case options_arg of
           None \<Rightarrow> \<lparr>reconstructor = None, defaultValue = JUndefined, serializer = None,
                     deserializer = Some (deserialize h)\<rparr>
         | Some given \<Rightarrow> given)
      in case value of
           None \<Rightarrow> Inr (nullish (defaultValue options) JNull)
         | Some a \<Rightarrow>
             (case deserialize h a of
                Inl e \<Rightarrow> Inl e
              | Inr deserialized \<Rightarrow>
                  if deserialized = JUndefined \<or> deserialized = JNull
                  then Inr (nullish (defaultValue options) JNull)
                  else (case reconstructor options of
                          Some f \<Rightarrow> f deserialized
                        | None \<Rightarrow> Inr deserialized)))"

text \<open>\<open>serializeValueWithOptions\<close> (lines 95 to 102).  The parameter is destructured: its
  default \<open>{ serializer: serialize }\<close> stands in only for options that are not passed.
  Calling an absent \<open>serializer\<close> is a \<open>TypeError\<close>.\<close>

definition serializeValueWithOptions ::
  "'n host \<Rightarrow> 'n jsval \<Rightarrow> 'n GetOptions option \<Rightarrow> error + Uint8Array" where
  "serializeValueWithOptions h value options_arg =
     (let options =
        (case options_arg of
           None \<Rightarrow> \<lparr>reconstructor = None, defaultValue = JUndefined, serializer = Some (serialize h),
                     deserializer = None\<rparr>
         | Some given \<Rightarrow> given)
      in case serializer options of
           None \<Rightarrow> Inl (TypeError In_call)
         | Some f \<Rightarrow> f value)"

text \<open>\<open>validateAccountId\<close> (lines 156 to 162).\<close>

definition validateAccountId :: "string \<Rightarrow> bool" where
  "validateAccountId accountId =
     (length accountId \<ge> 2 \<and> length accountId \<le> 64 \<and> RegExp_test ACCOUNT_ID_REGEX accountId)"

text \<open>\<open>TextEncoder\<close> and \<open>TextDecoder\<close> (lines 167 to 188).\<close>

definition TextEncoder_encode :: "'n host \<Rightarrow> string \<Rightarrow> Uint8Array" where
  "TextEncoder_encode h s = utf8_string_to_uint8array (env h) (Some s)"

definition TextDecoder_decode :: "'n host \<Rightarrow> string \<Rightarrow> Uint8Array \<Rightarrow> error + string" where
  "TextDecoder_decode h encoding a =
     (if encoding = ''utf-8'' then Inr (uint8array_to_utf8_string (env h) a)
      else if encoding = ''latin1'' then Inr (uint8array_to_latin1_string (env h) a)
      else Inl (Error (''unsupported encoding: '' @ encoding)))"

section \<open>The deserializer as the specification describes it\<close>

text \<open>The envelope test in the words of the spec (section 3): a decoded mapping is an
  envelope if and only if it has exactly two keys and both key names are in the set
  of \<open>"value"\<close> and the type-tag key.\<close>

definition spec_envelope :: "(string \<times> 'n jsval) list \<Rightarrow> bool" where
  "spec_envelope members =
     (length members = 2 \<and> (\<forall>key \<in> set (map fst members). key \<in> {''value'', ''typeInfo''}))"

text \<open>The member of a mapping under a key, \<open>undefined\<close> when there is none.\<close>

definition spec_member :: "(string \<times> 'n jsval) list \<Rightarrow> string \<Rightarrow> 'n jsval" where
  "spec_member members key = (case map_of members key of None \<Rightarrow> JUndefined | Some v \<Rightarrow> v)"

text \<open>The deserializer in the words of the spec (section 4.2): the parsed data is
  walked bottom-up, children before parents; at each mapping node the envelope test
  is made; a node that passes it with a recognized tag is replaced by the value of the
  extended type, every other node is left as it is.\<close>

fun spec_decode :: "'n host \<Rightarrow> 'n jsval \<Rightarrow> error + 'n jsval" where
  "spec_decode h (JArr xs) =
     (case sequence_sum (map (spec_decode h) xs) of
        Inl e \<Rightarrow> Inl e
      | Inr ys \<Rightarrow> Inr (JArr ys))"
| "spec_decode h (JObj kvs) =
     (case sequence_sum (map (\<lambda>kv. map_sum id (Pair (fst kv)) (spec_decode h (snd kv))) kvs) of
        Inl e \<Rightarrow> Inl e
      | Inr members \<Rightarrow>
          if spec_envelope members \<and> spec_member members ''typeInfo'' = JStr ''bigint''
          then map_sum id JBigInt (BigInt h (spec_member members ''value''))
          else if spec_envelope members \<and> spec_member members ''typeInfo'' = JStr ''date''
          then map_sum id JDate (Date_new h (spec_member members ''value''))
          else Inr (JObj members))"
| "spec_decode h v = Inr v"

text \<open>All the nodes of a value, the value itself first.\<close>

fun nodes :: "'n jsval \<Rightarrow> 'n jsval list" where
  "nodes (JArr xs) = JArr xs # concat (map nodes xs)"
| "nodes (JObj kvs) = JObj kvs # concat (map (\<lambda>kv. nodes (snd kv)) kvs)"
| "nodes v = [v]"

text \<open>A value without \<open>undefined\<close> in it.\<close>

fun defined :: "'n jsval \<Rightarrow> bool" where
  "defined JUndefined = False"
| "defined (JArr xs) = list_all defined xs"
| "defined (JObj kvs) = list_all (\<lambda>kv. defined (snd kv)) kvs"
| "defined v = True"

text \<open>A node that the reviver replaces: the envelope shape with one of the two tags.\<close>

definition recognised_envelope :: "'n jsval \<Rightarrow> bool" where
  "recognised_envelope n =
     (envelope_shape n \<and> (get_property n TYPE_KEY = JStr ''bigint'' \<or> get_property n TYPE_KEY = JStr ''date''))"

section \<open>The account identifier as the specification describes it\<close>

text \<open>The pieces of a string between the characters that satisfy \<open>P\<close>: a leading, a
  trailing or a doubled separator leaves an empty piece.\<close>

fun split_when :: "(char \<Rightarrow> bool) \<Rightarrow> string \<Rightarrow> string list" where
  "split_when P [] = [[]]"
| "split_when P (c # cs) =
     (if P c then [] # split_when P cs
      else (c # hd (split_when P cs)) # tl (split_when P cs))"

text \<open>The account identifier in the words of the spec (section 4.4): between 2 and 64
  characters, dot-separated labels, each label one or more groups of lowercase
  alphanumerics joined by single hyphens or underscores; no piece is empty.\<close>

definition spec_lower_alnum :: "char \<Rightarrow> bool" where
  "spec_lower_alnum c = (c \<in> set ''abcdefghijklmnopqrstuvwxyz0123456789'')"

definition spec_separator :: "char \<Rightarrow> bool" where
  "spec_separator c = (c \<in> set ''-_'')"

definition spec_group :: "string \<Rightarrow> bool" where
  "spec_group g = (g \<noteq> [] \<and> list_all spec_lower_alnum g)"

definition spec_label :: "string \<Rightarrow> bool" where
  "spec_label l = list_all spec_group (split_when spec_separator l)"

definition spec_account_id :: "string \<Rightarrow> bool" where
  "spec_account_id s =
     (2 \<le> length s \<and> length s \<le> 64 \<and> list_all spec_label (split_when (\<lambda>c. c = CHR ''.'') s))"

section \<open>A host to run the module on\<close>

text \<open>The theorems below hold for every host.  To run the module on concrete inputs,
  this host has UTF-8 for the code units below 256, the integers for its numbers and
  ISO 8601 in UTC for its dates.\<close>

definition utf8_of_char :: "char \<Rightarrow> Uint8Array" where
  "utf8_of_char c =
     (let n = (of_char c :: nat) in
      if n < 128 then [of_nat n] else [of_nat (192 + n div 64), of_nat (128 + n mod 64)])"

fun utf8_to_string :: "Uint8Array \<Rightarrow> string" where
  "utf8_to_string [] = []"
| "utf8_to_string [b] = (if unat b < 128 then [char_of (unat b)] else ''?'')"
| "utf8_to_string (b # b' # bs) =
     (if unat b < 128 then char_of (unat b) # utf8_to_string (b' # bs)
      else if (unat b = 194 \<or> unat b = 195) \<and> 128 \<le> unat b' \<and> unat b' < 192
      then char_of ((unat b - 192) * 64 + (unat b' - 128)) # utf8_to_string bs
      else CHR ''?'' # utf8_to_string (b' # bs))"

definition sample_env :: Env where
  "sample_env =
     \<lparr>uint8array_to_latin1_string = map (\<lambda>b. char_of (unat b)),
      uint8array_to_utf8_string = utf8_to_string,
      latin1_string_to_uint8array = map (\<lambda>c. of_nat (of_char c)),
      utf8_string_to_uint8array =
        (\<lambda>s. concat (map utf8_of_char (case s of None \<Rightarrow> ''undefined'' | Some text \<Rightarrow> text)))\<rparr>"

text \<open>The civil calendar: the date of a day number counted from 1970-01-01, and back.\<close>

definition civil_from_days :: "int \<Rightarrow> int \<times> int \<times> int" where
  "civil_from_days z0 =
     (let z = z0 + 719468;
          era = z div 146097;
          doe = z mod 146097;
          yoe = (doe - doe div 1460 + doe div 36524 - doe div 146096) div 365;
          doy = doe - (365 * yoe + yoe div 4 - yoe div 100);
          mp = (5 * doy + 2) div 153;
          d = doy - (153 * mp + 2) div 5 + 1;
          m = (if mp < 10 then mp + 3 else mp - 9);
          y = yoe + era * 400 + (if m \<le> 2 then 1 else 0)
      in (y, m, d))"

definition days_from_civil :: "int \<Rightarrow> int \<Rightarrow> int \<Rightarrow> int" where
  "days_from_civil y0 m d =
     (let y = (if m \<le> 2 then y0 - 1 else y0);
          era = y div 400;
          yoe = y mod 400;
          doy = (153 * (if m > 2 then m - 3 else m + 9) + 2) div 5 + d - 1;
          doe = yoe * 365 + yoe div 4 - yoe div 100 + doy
      in era * 146097 + doe - 719468)"

fun pad :: "nat \<Rightarrow> string \<Rightarrow> string" where
  "pad n s = replicate (n - length s) (CHR ''0'') @ s"

definition iso_of_time :: "int \<Rightarrow> string" where
  "iso_of_time t =
     (let ms = t mod 86400000;
          ymd = civil_from_days (t div 86400000);
          y = fst ymd;
          year = (if 0 \<le> y \<and> y \<le> 9999 then pad 4 (digits10 (nat y))
                  else (if y < 0 then CHR ''-'' else CHR ''+'') # pad 6 (digits10 (nat \<bar>y\<bar>)))
      in year @ ''-'' @ pad 2 (digits10 (nat (fst (snd ymd)))) @ ''-'' @ pad 2 (digits10 (nat (snd (snd ymd))))
         @ ''T'' @ pad 2 (digits10 (nat (ms div 3600000))) @ '':'' @ pad 2 (digits10 (nat (ms div 60000 mod 60)))
         @ '':'' @ pad 2 (digits10 (nat (ms div 1000 mod 60))) @ ''.'' @ pad 3 (digits10 (nat (ms mod 1000)))
         @ ''Z'')"

text \<open>The sample host parses the one format it writes for the years 0000 to 9999.\<close>

definition field :: "nat \<Rightarrow> nat \<Rightarrow> string \<Rightarrow> int option" where
  "field start len s = parse_integer 10 (take len (drop start s))"

definition time_of_iso :: "string \<Rightarrow> int option" where
  "time_of_iso s =
     (if length s = 24 \<and> s ! 4 = CHR ''-'' \<and> s ! 7 = CHR ''-'' \<and> s ! 10 = CHR ''T'' \<and> s ! 13 = CHR '':''
         \<and> s ! 16 = CHR '':'' \<and> s ! 19 = CHR ''.'' \<and> s ! 23 = CHR ''Z'' then
        (case (field 0 4 s, field 5 2 s, field 8 2 s, field 11 2 s, field 14 2 s, field 17 2 s, field 20 3 s) of
           (Some y, Some m, Some d, Some hh, Some mm, Some ss, Some ms) \<Rightarrow>
             if 1 \<le> m \<and> m \<le> 12 \<and> 1 \<le> d \<and> d \<le> 31 \<and> hh < 24 \<and> mm < 60 \<and> ss < 60
                \<and> civil_from_days (days_from_civil y m d) = (y, m, d)
             then Some (days_from_civil y m d * 86400000 + hh * 3600000 + mm * 60000 + ss * 1000 + ms)
             else None
         | _ \<Rightarrow> None)
      else None)"

definition sample_host :: "int host" where
  "sample_host =
     \<lparr>env = sample_env,
      number_toString = bigint_toString,
      number_parse = (\<lambda>tok. case StringToBigInt tok of None \<Rightarrow> 0 | Some i \<Rightarrow> i),
      number_isFinite = (\<lambda>n. True),
      number_toBoolean = (\<lambda>n. n \<noteq> 0),
      number_integral = Some,
      number_truncate = Some,
      date_parse = time_of_iso,
      date_toISOString = iso_of_time,
      date_toString = (\<lambda>t. case t of None \<Rightarrow> ''Invalid Date'' | Some i \<Rightarrow> iso_of_time i)\<rparr>"

section \<open>Running the module on concrete inputs\<close>

lemmas eval_simps =
  deserialize_def serialize_def encode_def decode_def sample_host_def sample_env_def utf8_of_char_def
  JSON_parse_def JSON_parse_text_def JSON_stringify_def
  parse_value.simps parse_elements.simps parse_members.simps
  skip_ws_def is_ws_def is_digit_def unescape_def
  lex_number_def lex_int_def lex_frac_def lex_exp_def lex_sign_def lex_digits_def
  reviver_def envelope_shape_def TYPE_KEY_def StringToBigInt_def BigInt_of_string_def
  is_StrWhiteSpaceChar_def parse_integer_def digit_value_def char_of_def bit_Suc_0_iff
  object_of_members_def OrdinaryOwnPropertyKeys_def CreateDataProperty_def array_index_def
  digits10.simps digit_char_def

lemma deserialize_sample_1:
  "deserialize sample_host (encode sample_host (Some ''1'')) = Inr (JNum 1)"
  by (simp add: eval_simps)

lemma deserialize_sample_null:
  "deserialize sample_host (encode sample_host (Some ''null'')) = Inr JNull"
  by (simp add: eval_simps)

section \<open>The assertion\<close>

text \<open>C9.  \<open>assert(expression, message)\<close> throws an \<open>Error\<close> whose message is
  \<open>"assertion failed: "\<close> followed by \<open>message\<close> exactly when \<open>expression\<close> is falsy; when
  it is truthy the call returns, with no value.  There is no third outcome.\<close>

theorem assert_fails_iff_falsy:
  "(assert h expression message = Inl (Error (''assertion failed: '' @ message)) \<longleftrightarrow> \<not> ToBoolean h expression)
   \<and> (ToBoolean h expression \<longrightarrow> assert h expression message = Inr ())
   \<and> assert h expression message \<in> {Inr (), Inl (Error (''assertion failed: '' @ message))}"
  by (simp add: assert_def)

theorem assert_fails_iff_falsy_witness:
  "\<not> ToBoolean sample_host (JBool False)
   \<and> assert sample_host (JBool False) ''m'' = Inl (Error ''assertion failed: m'')
   \<and> ToBoolean sample_host (JBool True)
   \<and> assert sample_host (JBool True) ''m'' = Inr ()"
  using assert_fails_iff_falsy [of sample_host "JBool False" "''m''"]
        assert_fails_iff_falsy [of sample_host "JBool True" "''m''"]
  by simp

section \<open>The retrieval facade\<close>

lemma serializeValueWithOptions_delegates:
  "serializeValueWithOptions h v (Some (options\<lparr>serializer := Some f\<rparr>)) = f v"
  "serializeValueWithOptions h v None = serialize h v"
  by (simp_all add: serializeValueWithOptions_def)

text \<open>C6.  The claim is that \<open>serializeValueWithOptions(value, options)\<close> uses the default
  serializer whenever \<open>options\<close> has no \<open>serializer\<close>.  The code does so only when no
  options are passed at all: for an options object without the field, it calls
  \<open>undefined\<close> and throws a \<open>TypeError\<close>, whatever the value.\<close>

theorem serializeValueWithOptions_without_serializer:
  "serializeValueWithOptions h v
     (Some \<lparr>reconstructor = r, defaultValue = d, serializer = None, deserializer = ds\<rparr>)
   = Inl (TypeError In_call)"
  by (simp add: serializeValueWithOptions_def)

lemma getValueWithOptions_deserializer_unused:
  "getValueWithOptions h a (Some (options\<lparr>deserializer := d\<rparr>)) = getValueWithOptions h a (Some options)"
  by (simp add: getValueWithOptions_def Let_def split: option.splits sum.splits)

text \<open>C1.  The claim is that \<open>getValueWithOptions\<close> decodes with \<open>options.deserializer\<close>
  when the options supply one.  The code never reads the field (lemma
  \<open>getValueWithOptions_deserializer_unused\<close>): on the bytes of \<open>1\<close>, with a deserializer
  that answers \<open>"custom"\<close> to everything, it returns the number 1 of the default
  deserializer.\<close>

theorem getValueWithOptions_ignores_deserializer:
  "getValueWithOptions sample_host (Some (encode sample_host (Some ''1'')))
     (Some \<lparr>reconstructor = None, defaultValue = JUndefined, serializer = None,
            deserializer = Some (\<lambda>a. Inr (JStr ''custom''))\<rparr>)
   = Inr (JNum 1)"
  by (simp add: getValueWithOptions_def deserialize_sample_1)

text \<open>C4.  With a default value \<open>D\<close> in the options (\<open>undefined\<close> is the absence of one),
  \<open>getValueWithOptions\<close> returns \<open>D\<close> on absent bytes and on bytes that deserialize to
  \<open>null\<close>; with empty options it returns \<open>null\<close> on bytes that deserialize to \<open>null\<close>.\<close>

theorem getValueWithOptions_default:
  "(D \<noteq> JUndefined \<longrightarrow> getValueWithOptions h None (Some (options\<lparr>defaultValue := D\<rparr>)) = Inr D)
   \<and> (deserialize h a = Inr JNull \<longrightarrow> D \<noteq> JUndefined \<longrightarrow>
        getValueWithOptions h (Some a) (Some (options\<lparr>defaultValue := D\<rparr>)) = Inr D)
   \<and> (deserialize h a = Inr JNull \<longrightarrow>
        getValueWithOptions h (Some a)
          (Some \<lparr>reconstructor = None, defaultValue = JUndefined, serializer = None, deserializer = None\<rparr>)
        = Inr JNull)"
  by (simp add: getValueWithOptions_def nullish_def Let_def)

theorem getValueWithOptions_default_witness:
  "JNum 7 \<noteq> (JUndefined :: int jsval)
   \<and> deserialize sample_host (encode sample_host (Some ''null'')) = Inr JNull
   \<and> getValueWithOptions sample_host None
        (Some \<lparr>reconstructor = None, defaultValue = JNum 7, serializer = None, deserializer = None\<rparr>)
      = Inr (JNum 7)
   \<and> getValueWithOptions sample_host (Some (encode sample_host (Some ''null'')))
        (Some \<lparr>reconstructor = None, defaultValue = JNum 7, serializer = None, deserializer = None\<rparr>)
      = Inr (JNum 7)
   \<and> getValueWithOptions sample_host (Some (encode sample_host (Some ''null'')))
        (Some \<lparr>reconstructor = None, defaultValue = JUndefined, serializer = None, deserializer = None\<rparr>)
      = Inr JNull"
  using getValueWithOptions_default
          [of "JNum 7" sample_host
              "\<lparr>reconstructor = None, defaultValue = JUndefined, serializer = None, deserializer = None\<rparr>"
              "encode sample_host (Some ''null'')"]
        deserialize_sample_null
  by simp

lemma deserialize_sample_object:
  \<open>deserialize sample_host (encode sample_host (Some ''{"a":1}'')) = Inr (JObj [(''a'', JNum 1)])\<close>
  by (simp add: eval_simps)

text \<open>C5.  Default-value substitution comes before reconstruction.  On absent bytes, and
  on bytes that deserialize to \<open>null\<close> or \<open>undefined\<close>, the result is the default value
  (or \<open>null\<close>) whatever the reconstructor is, also one that throws on every input: the
  reconstructor is not called.  On bytes that deserialize to another value \<open>d\<close>, with a
  reconstructor \<open>f\<close> in the options, the result is exactly \<open>f d\<close>.\<close>

theorem getValueWithOptions_reconstructor:
  "getValueWithOptions h None (Some (options\<lparr>reconstructor := r\<rparr>)) = Inr (nullish (defaultValue options) JNull)
   \<and> (deserialize h a = Inr d \<longrightarrow> d = JNull \<or> d = JUndefined \<longrightarrow>
        getValueWithOptions h (Some a) (Some (options\<lparr>reconstructor := r\<rparr>))
        = Inr (nullish (defaultValue options) JNull))
   \<and> (deserialize h a = Inr d \<longrightarrow> d \<noteq> JNull \<longrightarrow> d \<noteq> JUndefined \<longrightarrow>
        getValueWithOptions h (Some a) (Some (options\<lparr>reconstructor := Some f\<rparr>)) = f d)"
  by (auto simp add: getValueWithOptions_def Let_def)

theorem getValueWithOptions_reconstructor_witness:
  \<open>deserialize sample_host (encode sample_host (Some ''null'')) = Inr JNull
   \<and> getValueWithOptions sample_host (Some (encode sample_host (Some ''null'')))
        (Some \<lparr>reconstructor = Some (\<lambda>v. Inl (Error ''called'')), defaultValue = JNum 7,
               serializer = None, deserializer = None\<rparr>)
      = Inr (JNum 7)
   \<and> deserialize sample_host (encode sample_host (Some ''{"a":1}'')) = Inr (JObj [(''a'', JNum 1)])
   \<and> JObj [(''a'', JNum 1)] \<noteq> (JNull :: int jsval)
   \<and> JObj [(''a'', JNum 1)] \<noteq> (JUndefined :: int jsval)
   \<and> getValueWithOptions sample_host (Some (encode sample_host (Some ''{"a":1}'')))
        (Some \<lparr>reconstructor = Some (\<lambda>v. Inr (JArr [v, v])), defaultValue = JNum 7,
               serializer = None, deserializer = None\<rparr>)
      = Inr (JArr [JObj [(''a'', JNum 1)], JObj [(''a'', JNum 1)]])\<close>
  using getValueWithOptions_reconstructor
          [where h = sample_host
             and options = "\<lparr>reconstructor = None, defaultValue = JNum 7, serializer = None, deserializer = None\<rparr>"
             and r = "Some (\<lambda>v. Inl (Error ''called''))"
             and a = "encode sample_host (Some ''null'')" and d = JNull]
        getValueWithOptions_reconstructor
          [where h = sample_host
             and options = "\<lparr>reconstructor = None, defaultValue = JNum 7, serializer = None, deserializer = None\<rparr>"
             and a = "encode sample_host (Some [CHR ''{'', CHR 0x22, CHR ''a'', CHR 0x22, CHR '':'', CHR ''1'', CHR ''}''])"
             and d = "JObj [(''a'', JNum 1)]" and f = "\<lambda>v. Inr (JArr [v, v])"]
        deserialize_sample_null deserialize_sample_object
  by (simp add: nullish_def)

section \<open>The deserializer\<close>

lemma parse_text_deserialize:
  "JSON_parse_text h (decode h a) = Inr j \<Longrightarrow> deserialize h a = InternalizeJSONProperty (reviver h) j"
  by (simp add: deserialize_def JSON_parse_def)

lemma reviver_primitive [simp]:
  "reviver h (JStr s) = Inr (JStr s)"
  "reviver h JNull = Inr JNull"
  "reviver h (JBool b) = Inr (JBool b)"
  "reviver h (JNum n) = Inr (JNum n)"
  by (simp_all add: reviver_def envelope_shape_def)

lemma parse_sample_unknown_tag:
  \<open>JSON_parse_text sample_host (decode sample_host (encode sample_host (Some ''{"value":"1","typeInfo":"other"}'')))
   = Inr (JObj [(''value'', JStr ''1''), (''typeInfo'', JStr ''other'')])\<close>
  by (simp add: eval_simps)

text \<open>C7.  A mapping of the envelope shape whose \<open>typeInfo\<close> is neither \<open>"bigint"\<close>
  nor \<open>"date"\<close> passes through the reviver unchanged; bytes whose text is such a mapping
  of two strings deserialize to that mapping, without error.\<close>

theorem reviver_unknown_tag:
  "(envelope_shape v \<longrightarrow> get_property v TYPE_KEY \<noteq> JStr ''bigint'' \<longrightarrow> get_property v TYPE_KEY \<noteq> JStr ''date''
      \<longrightarrow> reviver h v = Inr v)
   \<and> (JSON_parse_text h (decode h a) = Inr (JObj [(''value'', JStr s), (''typeInfo'', JStr tag)])
      \<longrightarrow> tag \<noteq> ''bigint'' \<longrightarrow> tag \<noteq> ''date''
      \<longrightarrow> deserialize h a = Inr (JObj [(''value'', JStr s), (''typeInfo'', JStr tag)]))"
  by (auto simp add: reviver_def parse_text_deserialize TYPE_KEY_def)

theorem reviver_unknown_tag_witness:
  \<open>envelope_shape (JObj [(''value'', JStr ''1''), (''typeInfo'', JStr ''other'')] :: int jsval)
   \<and> reviver sample_host (JObj [(''value'', JStr ''1''), (''typeInfo'', JStr ''other'')])
       = Inr (JObj [(''value'', JStr ''1''), (''typeInfo'', JStr ''other'')])
   \<and> deserialize sample_host (encode sample_host (Some ''{"value":"1","typeInfo":"other"}''))
       = Inr (JObj [(''value'', JStr ''1''), (''typeInfo'', JStr ''other'')])\<close>
  using reviver_unknown_tag
          [where v = "JObj [(''value'', JStr ''1''), (''typeInfo'', JStr ''other'')]" and h = sample_host
             and a = "encode sample_host (Some (''{'' @ [CHR 0x22] @ ''value'' @ [CHR 0x22] @ '':'' @ [CHR 0x22] @ ''1'' @ [CHR 0x22]
                 @ '','' @ [CHR 0x22] @ ''typeInfo'' @ [CHR 0x22] @ '':'' @ [CHR 0x22] @ ''other'' @ [CHR 0x22] @ ''}''))"
             and s = "''1''" and tag = "''other''"]
        parse_sample_unknown_tag
  by (simp add: envelope_shape_def TYPE_KEY_def)

lemma digits10_0: "digits10 0 = ''0''"
  by (simp add: digits10.simps digit_char_def char_of_def bit_Suc_0_iff)

lemma envelope_shape_object:
  "envelope_shape (JObj kvs) \<longleftrightarrow> length kvs = 2 \<and> set (map fst kvs) \<subseteq> {''value'', ''typeInfo''}"
  by (auto simp add: envelope_shape_def TYPE_KEY_def list_all_iff)

lemma envelope_shape_only_object: "envelope_shape v \<Longrightarrow> \<exists>kvs. v = JObj kvs"
proof (cases v)
  case (JArr xs)
  assume "envelope_shape v"
  with JArr have "length xs = 2 \<and> list_all (\<lambda>key. key \<in> set [''value'', TYPE_KEY]) (map digits10 [0..<length xs])"
    by (auto simp add: envelope_shape_def)
  then have keys: "list_all (\<lambda>key. key \<in> set [''value'', TYPE_KEY]) (map digits10 [0..<2])"
    by auto
  have "[0..<2::nat] = [0, 1]" by code_simp
  with keys show ?thesis by (simp add: digits10_0 TYPE_KEY_def)
qed (simp_all add: envelope_shape_def)

lemma reviver_bigint_envelope:
  "reviver h (JObj [(''value'', JStr x), (''typeInfo'', JStr ''bigint'')])
   = (case StringToBigInt x of None \<Rightarrow> Inl (SyntaxError In_BigInt) | Some i \<Rightarrow> Inr (JBigInt i))"
  by (simp add: reviver_def envelope_shape_def TYPE_KEY_def BigInt_of_string_def split: option.splits)

lemma parse_sample_bigint_5:
  \<open>JSON_parse_text sample_host (decode sample_host (encode sample_host (Some ''{"value":"5","typeInfo":"bigint"}'')))
   = Inr (JObj [(''value'', JStr ''5''), (''typeInfo'', JStr ''bigint'')])\<close>
  by (simp add: eval_simps)

lemma StringToBigInt_5: "StringToBigInt ''5'' = Some 5"
  by (simp add: eval_simps)

lemma sequence_sum_map_Inr [simp]: "sequence_sum (map Inr ys) = Inr ys"
  by (induction ys) simp_all

lemma sequence_sum_Inr: "sequence_sum rs = Inr ys \<longleftrightarrow> rs = map Inr ys"
proof
  show "sequence_sum rs = Inr ys \<Longrightarrow> rs = map Inr ys"
    by (induction rs arbitrary: ys) (auto split: sum.splits)
qed simp

lemma map_sum_Inr_iff: "map_sum f g x = Inr r \<longleftrightarrow> (\<exists>y. x = Inr y \<and> r = g y)"
  by (cases x) auto

lemma reviver_cases:
  "reviver h v = Inr r \<Longrightarrow> r = v \<or> (\<exists>i. r = JBigInt i) \<or> (\<exists>t. r = JDate t)"
  by (auto simp add: reviver_def map_sum_Inr_iff split: if_splits)

lemma reviver_no_shape: "\<not> envelope_shape v \<Longrightarrow> reviver h v = Inr v"
  by (simp add: reviver_def)

lemma reviver_array [simp]: "reviver h (JArr xs) = Inr (JArr xs)"
  using envelope_shape_only_object [of "JArr xs"] by (auto simp add: reviver_def)

lemma Internalize_not_undefined:
  "InternalizeJSONProperty (reviver h) j = Inr r \<Longrightarrow> j \<noteq> JUndefined \<Longrightarrow> r \<noteq> JUndefined"
proof (cases j)
  case (JArr xs)
  assume "InternalizeJSONProperty (reviver h) j = Inr r"
  with JArr show ?thesis by (auto split: sum.splits)
next
  case (JObj kvs)
  assume "InternalizeJSONProperty (reviver h) j = Inr r"
  with JObj show ?thesis by (auto split: sum.splits dest!: reviver_cases)
qed (auto dest!: reviver_cases)

lemma reviver_object:
  "reviver h (JObj members) =
     (if spec_envelope members \<and> spec_member members ''typeInfo'' = JStr ''bigint''
      then map_sum id JBigInt (BigInt h (spec_member members ''value''))
      else if spec_envelope members \<and> spec_member members ''typeInfo'' = JStr ''date''
      then map_sum id JDate (Date_new h (spec_member members ''value''))
      else Inr (JObj members))"
  by (auto simp add: reviver_def envelope_shape_object spec_envelope_def spec_member_def TYPE_KEY_def)

lemma Internalize_spec_decode:
  "defined j \<Longrightarrow> InternalizeJSONProperty (reviver h) j = spec_decode h j"
proof (induction h j rule: spec_decode.induct)
  case (1 h xs)
  then have "map (InternalizeJSONProperty (reviver h)) xs = map (spec_decode h) xs"
    by (simp add: list_all_iff)
  then show ?case
    by (simp only: InternalizeJSONProperty.simps spec_decode.simps reviver_array)
next
  case (2 h kvs)
  let ?f = "\<lambda>kv. map_sum id (Pair (fst kv)) (InternalizeJSONProperty (reviver h) (snd kv))"
  let ?g = "\<lambda>kv. map_sum id (Pair (fst kv)) (spec_decode h (snd kv))"
  from 2 have eq: "map ?f kvs = map ?g kvs"
    by (simp add: list_all_iff)
  have I: "InternalizeJSONProperty (reviver h) (JObj kvs) =
      (case sequence_sum (map ?g kvs) of
         Inl e \<Rightarrow> Inl e
       | Inr kvs' \<Rightarrow> reviver h (JObj (filter (\<lambda>kv. snd kv \<noteq> JUndefined) kvs')))"
    by (simp only: InternalizeJSONProperty.simps eq)
  show ?case
  proof (cases "sequence_sum (map ?g kvs)")
    case (Inl e)
    with I show ?thesis by simp
  next
    case (Inr members)
    have "snd m \<noteq> JUndefined" if "m \<in> set members" for m
    proof -
      from Inr eq have "map ?f kvs = map Inr members" by (simp add: sequence_sum_Inr)
      then have "Inr m \<in> set (map ?f kvs)" using that by simp
      then obtain kv where kv: "kv \<in> set kvs" "?f kv = Inr m" by auto
      then obtain r where r: "InternalizeJSONProperty (reviver h) (snd kv) = Inr r" "m = (fst kv, r)"
        by (cases "InternalizeJSONProperty (reviver h) (snd kv)") auto
      from kv(1) 2(2) have "snd kv \<noteq> JUndefined" by (auto simp add: list_all_iff)
      with r show ?thesis using Internalize_not_undefined by fastforce
    qed
    then have "filter (\<lambda>kv. snd kv \<noteq> JUndefined) members = members"
      by (simp add: filter_id_conv)
    with Inr I show ?thesis by (simp add: reviver_object)
  qed
qed (simp_all add: reviver_def envelope_shape_def)

lemma CreateDataProperty_set: "set (CreateDataProperty kvs kv) \<subseteq> insert kv (set kvs)"
  by (auto simp add: CreateDataProperty_def)

lemma foldl_CreateDataProperty_set: "set (foldl CreateDataProperty acc ms) \<subseteq> set acc \<union> set ms"
proof (induction ms arbitrary: acc)
  case Nil
  then show ?case by simp
next
  case (Cons m ms)
  show ?case using Cons [of "CreateDataProperty acc m"] CreateDataProperty_set [of acc m] by auto
qed

lemma OrdinaryOwnPropertyKeys_set [simp]: "set (OrdinaryOwnPropertyKeys kvs) = set kvs"
  by (auto simp add: OrdinaryOwnPropertyKeys_def)

lemma defined_object_of_members:
  "list_all (\<lambda>kv. defined (snd kv)) ms \<Longrightarrow> defined (object_of_members ms)"
  using foldl_CreateDataProperty_set [of "[]" ms]
  by (auto simp add: object_of_members_def list_all_iff)

lemma parse_defined:
  "(\<forall>v r. parse_value h s = Inr (v, r) \<longrightarrow> defined v)"
  "(\<forall>xs r. parse_elements h s = Inr (xs, r) \<longrightarrow> list_all defined xs)"
  "(\<forall>ms r. parse_members h s = Inr (ms, r) \<longrightarrow> list_all (\<lambda>kv. defined (snd kv)) ms)"
proof (induction h s and h s and h s rule: parse_value_parse_elements_parse_members.induct)
  case (1 h s)
  show ?case
    apply (subst parse_value.simps)
    using 1
    apply (auto split: list.splits if_splits sum.splits option.splits prod.splits
                simp add: defined_object_of_members)
    done
next
  case (2 h s)
  show ?case
    apply (subst parse_elements.simps)
    using 2
    apply (auto split: list.splits if_splits sum.splits option.splits prod.splits)
    done
next
  case (3 h s)
  show ?case
    apply (subst parse_members.simps)
    using 3
    apply (auto split: list.splits if_splits sum.splits option.splits prod.splits)
    done
qed

lemma JSON_parse_text_defined: "JSON_parse_text h s = Inr j \<Longrightarrow> defined j"
  using parse_defined(1) [of h s]
  by (auto simp add: JSON_parse_text_def split: sum.splits prod.splits if_splits)

lemma reviver_result:
  "reviver h v = Inr r \<Longrightarrow> (r = v \<and> \<not> recognised_envelope v) \<or> (\<exists>i. r = JBigInt i) \<or> (\<exists>t. r = JDate t)"
  by (auto simp add: reviver_def recognised_envelope_def map_sum_Inr_iff split: if_splits)

lemma not_recognised_leaf [simp]:
  "\<not> recognised_envelope (JBigInt i)" "\<not> recognised_envelope (JDate t)" "\<not> recognised_envelope (JArr xs)"
  "\<not> recognised_envelope JUndefined" "\<not> recognised_envelope JNull" "\<not> recognised_envelope (JBool b)"
  "\<not> recognised_envelope (JNum n)" "\<not> recognised_envelope (JStr s)"
  using envelope_shape_only_object [of "JArr xs"]
  by (auto simp add: recognised_envelope_def envelope_shape_def)

lemma Internalize_no_recognised_envelope:
  "InternalizeJSONProperty (reviver h) j = Inr r \<Longrightarrow> n \<in> set (nodes r) \<Longrightarrow> \<not> recognised_envelope n"
proof (induction j arbitrary: r n)
  case (JArr xs)
  from JArr.prems(1) obtain ys where ys: "sequence_sum (map (InternalizeJSONProperty (reviver h)) xs) = Inr ys"
    and r: "r = JArr ys"
    by (auto split: sum.splits)
  from ys have m: "map (InternalizeJSONProperty (reviver h)) xs = map Inr ys" by (simp add: sequence_sum_Inr)
  show ?case
  proof (cases "n = r")
    case True
    with r show ?thesis by simp
  next
    case False
    with JArr.prems(2) r obtain y where y: "y \<in> set ys" "n \<in> set (nodes y)" by auto
    then have "Inr y \<in> set (map (InternalizeJSONProperty (reviver h)) xs)" using m by simp
    then obtain x where "x \<in> set xs" "InternalizeJSONProperty (reviver h) x = Inr y" by auto
    with JArr.IH y(2) show ?thesis by blast
  qed
next
  case (JObj kvs)
  let ?f = "\<lambda>kv. map_sum id (Pair (fst kv)) (InternalizeJSONProperty (reviver h) (snd kv))"
  from JObj.prems(1) obtain ms where ms: "sequence_sum (map ?f kvs) = Inr ms"
    and r: "reviver h (JObj (filter (\<lambda>kv. snd kv \<noteq> JUndefined) ms)) = Inr r"
    by (auto split: sum.splits)
  from ms have m: "map ?f kvs = map Inr ms" by (simp add: sequence_sum_Inr)
  have inner: "\<not> recognised_envelope n" if "p \<in> set ms" "n \<in> set (nodes (snd p))" for p
  proof -
    from that(1) have "Inr p \<in> set (map ?f kvs)" using m by simp
    then obtain kv where kv: "kv \<in> set kvs" "?f kv = Inr p" by auto
    then obtain y where y: "InternalizeJSONProperty (reviver h) (snd kv) = Inr y" "p = (fst kv, y)"
      by (auto simp add: map_sum_Inr_iff)
    have "snd kv \<in> Basic_BNFs.snds kv" by (cases kv) simp
    with JObj.IH kv(1) y that(2) show ?thesis by fastforce
  qed
  from reviver_result [OF r] show ?case
  proof (elim disjE exE conjE)
    assume eq: "r = JObj (filter (\<lambda>kv. snd kv \<noteq> JUndefined) ms)"
      and nr: "\<not> recognised_envelope (JObj (filter (\<lambda>kv. snd kv \<noteq> JUndefined) ms))"
    show ?thesis
    proof (cases "n = r")
      case True
      with eq nr show ?thesis by simp
    next
      case False
      with JObj.prems(2) eq obtain p where "p \<in> set ms" "n \<in> set (nodes (snd p))" by auto
      then show ?thesis by (rule inner)
    qed
  next
    fix i assume "r = JBigInt i"
    with JObj.prems(2) show ?thesis by simp
  next
    fix t assume "r = JDate t"
    with JObj.prems(2) show ?thesis by simp
  qed
qed (auto dest!: reviver_result)

lemma deserialize_spec_decode:
  "JSON_parse_text h (decode h a) = Inr j \<Longrightarrow> deserialize h a = spec_decode h j"
  by (simp add: parse_text_deserialize JSON_parse_text_defined Internalize_spec_decode)

lemma deserialize_no_recognised_envelope:
  "deserialize h a = Inr r \<Longrightarrow> n \<in> set (nodes r) \<Longrightarrow> \<not> recognised_envelope n"
  by (auto simp add: deserialize_def JSON_parse_def split: sum.splits
           dest: Internalize_no_recognised_envelope)

lemma parse_sample_nested:
  \<open>JSON_parse_text sample_host (decode sample_host (encode sample_host
      (Some ''[{"value":"5","typeInfo":"bigint"},{"a":{"value":"5","typeInfo":"bigint"}}]'')))
   = Inr (JArr [JObj [(''value'', JStr ''5''), (''typeInfo'', JStr ''bigint'')],
                JObj [(''a'', JObj [(''value'', JStr ''5''), (''typeInfo'', JStr ''bigint'')])]])\<close>
  by (simp add: eval_simps)

text \<open>C3.  A mapping has the envelope shape exactly when it has two keys and both are
  among \<open>"value"\<close> and \<open>"typeInfo"\<close>; nothing but a mapping has it.  A node without the
  shape is returned as it is.  A node with the shape and the tag \<open>"bigint"\<close> (or
  \<open>"date"\<close>) is replaced by the conversion of its \<open>value\<close>.  So the plain mapping
  \<open>{"value": x, "typeInfo": "bigint"}\<close> is read as a tagged integer for every string
  \<open>x\<close>: it decodes to the integer that \<open>x\<close> denotes, or fails as \<open>BigInt(x)\<close> fails,
  and never to the mapping.  This is done at every mapping node of the decoded text,
  at any depth: \<open>deserialize\<close> is the bottom-up decoding of the spec applied to the
  parsed text, it fails as the parser fails on a malformed text, and no node of its
  result is a mapping of the envelope shape with one of the two tags.\<close>

theorem envelope_recognition:
  "(envelope_shape (JObj kvs) \<longleftrightarrow> length kvs = 2 \<and> set (map fst kvs) \<subseteq> {''value'', ''typeInfo''})
   \<and> (envelope_shape v \<longrightarrow> (\<exists>members. v = JObj members))
   \<and> (\<not> envelope_shape v \<longrightarrow> reviver h v = Inr v)
   \<and> (envelope_shape v \<longrightarrow> get_property v ''typeInfo'' = JStr ''bigint''
        \<longrightarrow> reviver h v = map_sum id JBigInt (BigInt h (get_property v ''value'')))
   \<and> (envelope_shape v \<longrightarrow> get_property v ''typeInfo'' = JStr ''date''
        \<longrightarrow> reviver h v = map_sum id JDate (Date_new h (get_property v ''value'')))
   \<and> reviver h (JObj [(''value'', JStr x), (''typeInfo'', JStr ''bigint'')])
       = (case StringToBigInt x of None \<Rightarrow> Inl (SyntaxError In_BigInt) | Some i \<Rightarrow> Inr (JBigInt i))
   \<and> (JSON_parse_text h (decode h a) = Inr (JObj [(''value'', JStr x), (''typeInfo'', JStr ''bigint'')])
        \<longrightarrow> deserialize h a
            = (case StringToBigInt x of None \<Rightarrow> Inl (SyntaxError In_BigInt) | Some i \<Rightarrow> Inr (JBigInt i)))
   \<and> (JSON_parse_text h (decode h a) = Inr j \<longrightarrow> deserialize h a = spec_decode h j)
   \<and> (JSON_parse_text h (decode h a) = Inl e \<longrightarrow> deserialize h a = Inl e)
   \<and> (deserialize h a = Inr r \<longrightarrow> (\<forall>n \<in> set (nodes r). \<not> recognised_envelope n))"
proof -
  have "JSON_parse_text h (decode h a) = Inr (JObj [(''value'', JStr x), (''typeInfo'', JStr ''bigint'')])
        \<Longrightarrow> deserialize h a = reviver h (JObj [(''value'', JStr x), (''typeInfo'', JStr ''bigint'')])"
    by (simp add: parse_text_deserialize)
  moreover have "JSON_parse_text h (decode h a) = Inl e \<Longrightarrow> deserialize h a = Inl e"
    by (simp add: deserialize_def JSON_parse_def)
  ultimately show ?thesis
    using envelope_shape_object [of kvs] envelope_shape_only_object [of v] reviver_bigint_envelope [of h x]
      deserialize_spec_decode [of h a j] deserialize_no_recognised_envelope [of h a r]
    by (simp add: reviver_def TYPE_KEY_def)
qed

theorem envelope_recognition_witness:
  \<open>envelope_shape (JObj [(''value'', JStr ''5''), (''typeInfo'', JStr ''bigint'')] :: int jsval)
   \<and> \<not> envelope_shape (JObj [(''value'', JStr ''5''), (''typeInfo'', JStr ''bigint''), (''n'', JNull)] :: int jsval)
   \<and> reviver sample_host (JObj [(''value'', JStr ''5''), (''typeInfo'', JStr ''bigint''), (''n'', JNull)])
       = Inr (JObj [(''value'', JStr ''5''), (''typeInfo'', JStr ''bigint''), (''n'', JNull)])
   \<and> deserialize sample_host (encode sample_host (Some ''{"value":"5","typeInfo":"bigint"}''))
       = Inr (JBigInt 5)
   \<and> deserialize sample_host (encode sample_host
        (Some ''[{"value":"5","typeInfo":"bigint"},{"a":{"value":"5","typeInfo":"bigint"}}]''))
       = Inr (JArr [JBigInt 5, JObj [(''a'', JBigInt 5)]])
   \<and> list_all (\<lambda>n. \<not> recognised_envelope n) (nodes (JArr [JBigInt 5, JObj [(''a'', JBigInt 5)]] :: int jsval))\<close>
proof -
  let ?flat = "JObj [(''value'', JStr ''5''), (''typeInfo'', JStr ''bigint'')] :: int jsval"
  let ?three = "JObj [(''value'', JStr ''5''), (''typeInfo'', JStr ''bigint''), (''n'', JNull)] :: int jsval"
  let ?tree = "JArr [?flat, JObj [(''a'', ?flat)]]"
  let ?result = "JArr [JBigInt 5, JObj [(''a'', JBigInt 5)]] :: int jsval"
  note flat = envelope_recognition
      [where kvs = "[(''value'', JStr ''5''), (''typeInfo'', JStr ''bigint'')]" and v = ?three
         and h = sample_host and x = "''5''" and j = ?flat and r = "JBigInt 5" and e = "SyntaxError In_JSON_parse"
         and a = \<open>encode sample_host (Some ''{"value":"5","typeInfo":"bigint"}'')\<close>]
  note nested = envelope_recognition
      [where kvs = "[(''value'', JStr ''5''), (''typeInfo'', JStr ''bigint'')]" and v = ?three
         and h = sample_host and x = "''5''" and j = ?tree and r = ?result and e = "SyntaxError In_JSON_parse"
         and a = \<open>encode sample_host
                   (Some ''[{"value":"5","typeInfo":"bigint"},{"a":{"value":"5","typeInfo":"bigint"}}]'')\<close>]
  note three_keys = envelope_recognition
      [where kvs = "[(''value'', JStr ''5''), (''typeInfo'', JStr ''bigint''), (''n'', JNull)]", THEN conjunct1]
  have shape: "envelope_shape ?flat"
    using flat [THEN conjunct1] by simp
  have no_shape: "\<not> envelope_shape ?three"
    using three_keys by simp
  have three: "reviver sample_host ?three = Inr ?three"
    using flat [THEN conjunct2, THEN conjunct2, THEN conjunct1] no_shape by (rule mp)
  have d1: \<open>deserialize sample_host (encode sample_host (Some ''{"value":"5","typeInfo":"bigint"}'')) = Inr (JBigInt 5)\<close>
    using flat [THEN conjunct2, THEN conjunct2, THEN conjunct2, THEN conjunct2, THEN conjunct2, THEN conjunct2,
                THEN conjunct1, THEN mp, OF parse_sample_bigint_5]
    by (simp add: StringToBigInt_5)
  have "spec_decode sample_host ?tree = Inr ?result"
    by (simp add: spec_envelope_def spec_member_def BigInt_of_string_def StringToBigInt_5)
  then have d2: \<open>deserialize sample_host (encode sample_host
        (Some ''[{"value":"5","typeInfo":"bigint"},{"a":{"value":"5","typeInfo":"bigint"}}]'')) = Inr ?result\<close>
    using nested [THEN conjunct2, THEN conjunct2, THEN conjunct2, THEN conjunct2, THEN conjunct2, THEN conjunct2,
                  THEN conjunct2, THEN conjunct1, THEN mp, OF parse_sample_nested]
    by simp
  have "\<forall>n \<in> set (nodes ?result). \<not> recognised_envelope n"
    using nested [THEN conjunct2, THEN conjunct2, THEN conjunct2, THEN conjunct2, THEN conjunct2, THEN conjunct2,
                  THEN conjunct2, THEN conjunct2, THEN conjunct2, THEN mp, OF d2] .
  then have "list_all (\<lambda>n. \<not> recognised_envelope n) (nodes ?result)"
    by (simp only: list_all_iff)
  with shape no_shape three d1 d2 show ?thesis by blast
qed

lemma parse_bigint_x:
  \<open>JSON_parse_text h ''{"value":"x","typeInfo":"bigint"}''
   = Inr (JObj [(''value'', JStr ''x''), (''typeInfo'', JStr ''bigint'')])\<close>
  by (simp add: eval_simps)

lemma StringToBigInt_x: "StringToBigInt ''x'' = None"
  by (simp add: eval_simps)

lemma decode_encode_sample_x:
  \<open>decode sample_host (encode sample_host (Some ''{"value":"x","typeInfo":"bigint"}''))
   = ''{"value":"x","typeInfo":"bigint"}''\<close>
  by (simp add: eval_simps)

text \<open>C10.  There are bytes whose text is well-formed JSON and on which \<open>deserialize\<close>
  fails all the same: when the text is an envelope with the tag \<open>"bigint"\<close> whose
  \<open>value\<close> is a string that is no integer literal, such as \<open>"x"\<close>, the parser accepts
  it and the conversion to a bigint throws a \<open>SyntaxError\<close> of its own, not the one of
  \<open>JSON.parse\<close>.\<close>

theorem deserialize_fails_on_valid_text:
  \<open>(JSON_parse_text h (decode h a) = Inr (JObj [(''value'', JStr s), (''typeInfo'', JStr ''bigint'')])
      \<longrightarrow> StringToBigInt s = None \<longrightarrow> deserialize h a = Inl (SyntaxError In_BigInt))
   \<and> (decode h a = ''{"value":"x","typeInfo":"bigint"}''
      \<longrightarrow> JSON_parse_text h (decode h a) = Inr (JObj [(''value'', JStr ''x''), (''typeInfo'', JStr ''bigint'')])
          \<and> deserialize h a = Inl (SyntaxError In_BigInt))
   \<and> SyntaxError In_BigInt \<noteq> SyntaxError In_JSON_parse\<close>
proof -
  have 1: "deserialize h a = Inl (SyntaxError In_BigInt)"
    if "JSON_parse_text h (decode h a) = Inr (JObj [(''value'', JStr s), (''typeInfo'', JStr ''bigint'')])"
      and "StringToBigInt s = None" for s
    using that by (simp add: parse_text_deserialize reviver_bigint_envelope)
  show ?thesis
    using 1 [of "''x''"] 1 [of s] parse_bigint_x [of h] StringToBigInt_x by auto
qed

theorem deserialize_fails_on_valid_text_witness:
  \<open>decode sample_host (encode sample_host (Some ''{"value":"x","typeInfo":"bigint"}''))
     = ''{"value":"x","typeInfo":"bigint"}''
   \<and> JSON_parse_text sample_host (decode sample_host (encode sample_host (Some ''{"value":"x","typeInfo":"bigint"}'')))
     = Inr (JObj [(''value'', JStr ''x''), (''typeInfo'', JStr ''bigint'')])
   \<and> deserialize sample_host (encode sample_host (Some ''{"value":"x","typeInfo":"bigint"}''))
     = Inl (SyntaxError In_BigInt)\<close>
  using deserialize_fails_on_valid_text
          [where h = sample_host
             and a = "encode sample_host (Some (''{'' @ [CHR 0x22] @ ''value'' @ [CHR 0x22] @ '':'' @ [CHR 0x22] @ ''x'' @ [CHR 0x22]
                 @ '','' @ [CHR 0x22] @ ''typeInfo'' @ [CHR 0x22] @ '':'' @ [CHR 0x22] @ ''bigint'' @ [CHR 0x22] @ ''}''))"]
        decode_encode_sample_x
  by simp

section \<open>The identity validator\<close>

lemma nullable_lang: "nullable r \<longleftrightarrow> [] \<in> lang r"
  by (induction r) (auto simp add: conc_def intro: star.intros)

lemma Cons_in_conc:
  "c # w \<in> conc A B \<longleftrightarrow> ([] \<in> A \<and> c # w \<in> B) \<or> (\<exists>u v. w = u @ v \<and> c # u \<in> A \<and> v \<in> B)"
proof
  assume "c # w \<in> conc A B"
  then obtain a b where ab: "c # w = a @ b" "a \<in> A" "b \<in> B" by (auto simp add: conc_def)
  show "([] \<in> A \<and> c # w \<in> B) \<or> (\<exists>u v. w = u @ v \<and> c # u \<in> A \<and> v \<in> B)"
  proof (cases a)
    case Nil
    with ab show ?thesis by simp
  next
    case (Cons x u)
    with ab show ?thesis by auto
  qed
next
  assume "([] \<in> A \<and> c # w \<in> B) \<or> (\<exists>u v. w = u @ v \<and> c # u \<in> A \<and> v \<in> B)"
  then show "c # w \<in> conc A B"
  proof
    assume "[] \<in> A \<and> c # w \<in> B"
    then have "[] @ (c # w) \<in> conc A B" unfolding conc_def by blast
    then show ?thesis by simp
  next
    assume "\<exists>u v. w = u @ v \<and> c # u \<in> A \<and> v \<in> B"
    then obtain u v where "w = u @ v" "c # u \<in> A" "v \<in> B" by blast
    then have "(c # u) @ v \<in> conc A B" unfolding conc_def by blast
    with \<open>w = u @ v\<close> show ?thesis by simp
  qed
qed

lemma Cons_in_star:
  "c # w \<in> star A \<longleftrightarrow> (\<exists>u v. w = u @ v \<and> c # u \<in> A \<and> v \<in> star A)"
proof
  have "x \<in> star A \<Longrightarrow> x = c # w \<Longrightarrow> \<exists>u v. w = u @ v \<and> c # u \<in> A \<and> v \<in> star A" for x
  proof (induction arbitrary: w rule: star.induct)
    case star_empty
    then show ?case by simp
  next
    case (star_step a v)
    show ?case
    proof (cases a)
      case Nil
      with star_step show ?thesis by simp
    next
      case (Cons x u)
      with star_step.prems star_step.hyps show ?thesis by auto
    qed
  qed
  then show "c # w \<in> star A \<Longrightarrow> \<exists>u v. w = u @ v \<and> c # u \<in> A \<and> v \<in> star A" by blast
next
  assume "\<exists>u v. w = u @ v \<and> c # u \<in> A \<and> v \<in> star A"
  then obtain u v where "w = u @ v" "c # u \<in> A" "v \<in> star A" by blast
  then have "(c # u) @ v \<in> star A" by (blast intro: star.intros)
  with \<open>w = u @ v\<close> show "c # w \<in> star A" by simp
qed

lemma lang_deriv: "w \<in> lang (deriv c r) \<longleftrightarrow> c # w \<in> lang r"
proof (induction r arbitrary: w)
  case (Seq r s)
  then show ?case
    by (auto simp add: Cons_in_conc nullable_lang) (auto simp add: conc_def)
next
  case (Star r)
  then show ?case by (auto simp add: Cons_in_star) (auto simp add: conc_def)
next
  case (Plus r)
  have "c # w \<in> conc (lang r) (star (lang r)) \<longleftrightarrow> c # w \<in> star (lang r)"
    by (auto simp add: Cons_in_conc Cons_in_star intro: star.intros)
  with Plus show ?case by (auto simp add: Cons_in_star) (auto simp add: conc_def)
qed auto

lemma RegExp_test_lang: "RegExp_test r s \<longleftrightarrow> s \<in> lang r"
  by (induction s arbitrary: r) (simp_all add: nullable_lang lang_deriv)

lemma split_when_not_Nil [simp]: "split_when P s \<noteq> []"
  by (cases s) simp_all

lemma split_when_prefix:
  "\<forall>c \<in> set w. \<not> P c \<Longrightarrow> split_when P (w @ s) = (w @ hd (split_when P s)) # tl (split_when P s)"
  by (induction w) simp_all

lemma split_when_no_separator: "\<forall>c \<in> set w. \<not> P c \<Longrightarrow> split_when P w = [w]"
  using split_when_prefix [of w P "[]"] by simp

lemma split_when_at_separator:
  "\<forall>c \<in> set w. \<not> P c \<Longrightarrow> P c \<Longrightarrow> split_when P (w @ c # s) = w # split_when P s"
  by (simp add: split_when_prefix)

lemma split_when_cases:
  "(\<forall>c \<in> set s. \<not> P c) \<or>
   (\<exists>w c s'. s = w @ c # s' \<and> P c \<and> (\<forall>c \<in> set w. \<not> P c))"
proof (induction s)
  case Nil
  then show ?case by simp
next
  case (Cons x s)
  show ?case
  proof (cases "P x")
    case True
    then have "x # s = [] @ x # s \<and> P x \<and> (\<forall>c \<in> set []. \<not> P c)" by simp
    then show ?thesis by blast
  next
    case False
    from Cons show ?thesis
    proof
      assume "\<forall>c \<in> set s. \<not> P c"
      with False show ?thesis by simp
    next
      assume "\<exists>w c s'. s = w @ c # s' \<and> P c \<and> (\<forall>c \<in> set w. \<not> P c)"
      then obtain w c s' where "s = w @ c # s'" "P c" "\<forall>c \<in> set w. \<not> P c" by blast
      with False have "x # s = (x # w) @ c # s' \<and> P c \<and> (\<forall>c \<in> set (x # w). \<not> P c)" by simp
      then show ?thesis by blast
    qed
  qed
qed

text \<open>Strings of atoms joined by single separators.\<close>

lemma joined_iff_split:
  assumes atoms: "\<And>w c. w \<in> A \<Longrightarrow> c \<in> set w \<Longrightarrow> \<not> P c"
  shows "s \<in> conc (star (conc A {[c] | c. P c})) A \<longleftrightarrow> list_all (\<lambda>g. g \<in> A) (split_when P s)"
proof
  assume "s \<in> conc (star (conc A {[c] | c. P c})) A"
  then obtain x a where s: "s = x @ a" and x: "x \<in> star (conc A {[c] | c. P c})" and a: "a \<in> A"
    by (auto simp add: conc_def)
  from x have "list_all (\<lambda>g. g \<in> A) (split_when P (x @ a))"
  proof (induction rule: star.induct)
    case star_empty
    from a atoms have "split_when P a = [a]" by (intro split_when_no_separator) blast
    with a show ?case by simp
  next
    case (star_step y w)
    from star_step.hyps(1) obtain b c where y: "y = b @ [c]" "b \<in> A" "P c" by (auto simp add: conc_def)
    with atoms have "split_when P (b @ c # (w @ a)) = b # split_when P (w @ a)"
      by (intro split_when_at_separator) blast+
    with y star_step.IH show ?case by simp
  qed
  with s show "list_all (\<lambda>g. g \<in> A) (split_when P s)" by simp
next
  assume "list_all (\<lambda>g. g \<in> A) (split_when P s)"
  then show "s \<in> conc (star (conc A {[c] | c. P c})) A"
  proof (induction s rule: length_induct)
    case (1 s)
    from split_when_cases [of s P] show ?case
    proof (elim disjE exE conjE)
      assume "\<forall>c \<in> set s. \<not> P c"
      then have "split_when P s = [s]" by (rule split_when_no_separator)
      with "1.prems" have "s \<in> A" by simp
      then have "[] @ s \<in> conc (star (conc A {[c] | c. P c})) A"
        unfolding conc_def using star_empty by blast
      then show ?thesis by simp
    next
      fix w c s'
      assume s: "s = w @ c # s'" and c: "P c" and w: "\<forall>c \<in> set w. \<not> P c"
      then have sp: "split_when P s = w # split_when P s'" by (simp add: split_when_at_separator)
      with "1.prems" have wA: "w \<in> A" and rest: "list_all (\<lambda>g. g \<in> A) (split_when P s')" by simp_all
      from s have "length s' < length s" by simp
      with "1.IH" rest have "s' \<in> conc (star (conc A {[c] | c. P c})) A" by blast
      then obtain x a where s': "s' = x @ a" and x: "x \<in> star (conc A {[c] | c. P c})" and a: "a \<in> A"
        by (auto simp add: conc_def)
      from wA c have "w @ [c] \<in> conc A {[c] | c. P c}" unfolding conc_def by blast
      with x have "(w @ [c]) @ x \<in> star (conc A {[c] | c. P c})" by (blast intro: star_step)
      with a have "((w @ [c]) @ x) @ a \<in> conc (star (conc A {[c] | c. P c})) A" unfolding conc_def by blast
      with s s' show ?thesis by simp
    qed
  qed
qed

lemma split_when_chars:
  "c \<in> set s \<Longrightarrow> P c \<or> (\<exists>g \<in> set (split_when P s). c \<in> set g)"
proof (induction s)
  case Nil
  then show ?case by simp
next
  case (Cons x s)
  show ?case
  proof (cases "c = x")
    case True
    then show ?thesis by (cases "P x") simp_all
  next
    case False
    with Cons have "P c \<or> (\<exists>g \<in> set (split_when P s). c \<in> set g)" by simp
    then show ?thesis
    proof
      assume "P c" then show ?thesis ..
    next
      assume "\<exists>g \<in> set (split_when P s). c \<in> set g"
      then obtain g where g: "g \<in> set (split_when P s)" "c \<in> set g" by blast
      have "split_when P s = hd (split_when P s) # tl (split_when P s)" by simp
      with g have "g = hd (split_when P s) \<or> g \<in> set (tl (split_when P s))"
        by (metis set_ConsD)
      with g show ?thesis by (cases "P x") auto
    qed
  qed
qed

lemma star_singletons: "star {[c] | c. P c} = {w. \<forall>c \<in> set w. P c}"
proof (intro set_eqI iffI)
  fix w assume "w \<in> star {[c] | c. P c}"
  then show "w \<in> {w. \<forall>c \<in> set w. P c}"
    by (induction rule: star.induct) auto
next
  fix w assume "w \<in> {w. \<forall>c \<in> set w. P c}"
  then have "\<forall>c \<in> set w. P c" by simp
  then show "w \<in> star {[c] | c. P c}"
  proof (induction w)
    case Nil
    show ?case by (rule star_empty)
  next
    case (Cons x w)
    then have "[x] \<in> {[c] | c. P c}" "w \<in> star {[c] | c. P c}" by auto
    then have "[x] @ w \<in> star {[c] | c. P c}" by (rule star_step)
    then show ?case by simp
  qed
qed

lemma lang_Plus_Class: "lang (Plus (Class P)) = {w. w \<noteq> [] \<and> (\<forall>c \<in> set w. P c)}"
proof (intro set_eqI iffI)
  fix w assume "w \<in> lang (Plus (Class P))"
  then show "w \<in> {w. w \<noteq> [] \<and> (\<forall>c \<in> set w. P c)}"
    by (auto simp add: conc_def star_singletons)
next
  fix w assume "w \<in> {w. w \<noteq> [] \<and> (\<forall>c \<in> set w. P c)}"
  then obtain x u where w: "w = x # u" "P x" "\<forall>c \<in> set u. P c" by (cases w) auto
  then have "[x] @ u \<in> conc {[c] | c. P c} (star {[c] | c. P c})"
    unfolding conc_def star_singletons by blast
  with w show "w \<in> lang (Plus (Class P))" by simp
qed

lemma char_cases:
  fixes c :: char
  assumes "a \<le> (of_char c :: nat)" "(of_char c :: nat) \<le> b"
  shows "c \<in> set (map char_of [a..<Suc b])"
proof -
  have "char_of (of_char c :: nat) = c" by simp
  moreover from assms have "(of_char c :: nat) \<in> set [a..<Suc b]" by auto
  ultimately show ?thesis by (metis image_eqI set_map)
qed

lemma lower_or_digit_spec: "lower_or_digit c \<longleftrightarrow> spec_lower_alnum c"
proof
  assume "lower_or_digit c"
  then have "c \<in> set (map char_of [97..<Suc (122::nat)]) \<or> c \<in> set (map char_of [48..<Suc (57::nat)])"
    unfolding lower_or_digit_def using char_cases by blast
  moreover have "map char_of [97..<Suc (122::nat)] = ''abcdefghijklmnopqrstuvwxyz''"
    by code_simp
  moreover have "map char_of [48..<Suc (57::nat)] = ''0123456789''"
    by code_simp
  ultimately show "spec_lower_alnum c" by (auto simp add: spec_lower_alnum_def)
next
  assume "spec_lower_alnum c"
  then show "lower_or_digit c"
    by (auto simp add: spec_lower_alnum_def lower_or_digit_def)
qed

lemma hyphen_or_underscore_spec: "hyphen_or_underscore c \<longleftrightarrow> spec_separator c"
  by (auto simp add: hyphen_or_underscore_def spec_separator_def)

lemma lang_group: "lang (Plus (Class lower_or_digit)) = {g. spec_group g}"
  unfolding lang_Plus_Class by (auto simp add: spec_group_def list_all_iff lower_or_digit_spec)

lemma spec_lower_alnum_no_separator: "spec_lower_alnum c \<Longrightarrow> \<not> spec_separator c"
  by (auto simp add: spec_lower_alnum_def spec_separator_def)

lemma spec_lower_alnum_no_full_stop: "spec_lower_alnum c \<Longrightarrow> c \<noteq> CHR ''.''"
  by (auto simp add: spec_lower_alnum_def)

lemma spec_group_no_separator: "g \<in> {g. spec_group g} \<Longrightarrow> c \<in> set g \<Longrightarrow> \<not> spec_separator c"
  by (simp add: spec_group_def list_all_iff spec_lower_alnum_no_separator)

lemma Class_set: "{[c] | c. hyphen_or_underscore c} = {[c] | c. spec_separator c}"
  by (simp add: hyphen_or_underscore_spec)

lemma lang_label: "l \<in> lang ACCOUNT_ID_LABEL \<longleftrightarrow> spec_label l"
proof -
  have "l \<in> conc (star (conc {g. spec_group g} {[c] | c. spec_separator c})) {g. spec_group g}
        \<longleftrightarrow> list_all (\<lambda>g. g \<in> {g. spec_group g}) (split_when spec_separator l)"
    by (rule joined_iff_split) (rule spec_group_no_separator)
  moreover have "lang ACCOUNT_ID_LABEL
      = conc (star (conc {g. spec_group g} {[c] | c. spec_separator c})) {g. spec_group g}"
    unfolding ACCOUNT_ID_LABEL_def lang.simps(4) lang.simps(6) lang_group lang.simps(3) Class_set ..
  ultimately show ?thesis
    by (simp only: spec_label_def mem_Collect_eq)
qed

lemma spec_label_no_full_stop:
  assumes "spec_label l" "c \<in> set l"
  shows "c \<noteq> CHR ''.''"
proof -
  from split_when_chars [OF assms(2), of spec_separator]
  show ?thesis
  proof
    assume "spec_separator c"
    then show ?thesis by (auto simp add: spec_separator_def)
  next
    assume "\<exists>g \<in> set (split_when spec_separator l). c \<in> set g"
    then obtain g where "g \<in> set (split_when spec_separator l)" "c \<in> set g" by blast
    with assms(1) have "spec_lower_alnum c"
      by (auto simp add: spec_label_def spec_group_def list_all_iff)
    then show ?thesis by (rule spec_lower_alnum_no_full_stop)
  qed
qed

lemma lang_account: "s \<in> lang ACCOUNT_ID_REGEX \<longleftrightarrow> list_all spec_label (split_when (\<lambda>c. c = CHR ''.'') s)"
proof -
  have "s \<in> conc (star (conc {l. spec_label l} {[c] | c. c = CHR ''.''})) {l. spec_label l}
        \<longleftrightarrow> list_all (\<lambda>g. g \<in> {l. spec_label l}) (split_when (\<lambda>c. c = CHR ''.'') s)"
    by (rule joined_iff_split) (simp add: spec_label_no_full_stop)
  moreover have label: "lang ACCOUNT_ID_LABEL = {l. spec_label l}"
    using lang_label by blast
  moreover have "{[c] | c. full_stop c} = {[c] | c. c = CHR ''.''}"
    by (simp add: full_stop_def)
  then have "lang ACCOUNT_ID_REGEX
      = conc (star (conc {l. spec_label l} {[c] | c. c = CHR ''.''})) {l. spec_label l}"
    unfolding ACCOUNT_ID_REGEX_def lang.simps(4) lang.simps(6) label lang.simps(3) by simp
  ultimately show ?thesis
    by (simp only: mem_Collect_eq)
qed

lemma validateAccountId_spec: "validateAccountId s \<longleftrightarrow> spec_account_id s"
  by (simp add: validateAccountId_def spec_account_id_def RegExp_test_lang lang_account)

lemmas regex_eval =
  validateAccountId_def ACCOUNT_ID_REGEX_def ACCOUNT_ID_LABEL_def lower_or_digit_def
  hyphen_or_underscore_def full_stop_def

lemma validateAccountId_examples:
  "validateAccountId ''alice.near''"
  "\<not> validateAccountId ''Alice.near''"
  "\<not> validateAccountId ''a''"
  "\<not> validateAccountId ''a..b''"
  "\<not> validateAccountId ''a--b''"
  "\<not> validateAccountId ''-ab''"
  "\<not> validateAccountId ''ab_''"
  "\<not> validateAccountId ''.ab''"
  "\<not> validateAccountId ''ab.''"
  "validateAccountId ''a-b_c.d0''"
  by (simp_all add: regex_eval)

text \<open>C8.  \<open>validateAccountId(s)\<close> is true exactly when \<open>s\<close> has between 2 and 64
  characters and is a sequence of dot-separated labels, each label being groups of
  lowercase alphanumerics joined by single hyphens or underscores, with no empty group
  (no leading, trailing or doubled separator) and no empty label.  So \<open>alice.near\<close> is
  valid, and \<open>Alice.near\<close>, \<open>a\<close>, \<open>a..b\<close> and every string of 65 characters are not.\<close>

theorem validateAccountId_grammar:
  "(validateAccountId s \<longleftrightarrow> spec_account_id s)
   \<and> validateAccountId ''alice.near''
   \<and> \<not> validateAccountId ''Alice.near''
   \<and> \<not> validateAccountId ''a''
   \<and> \<not> validateAccountId ''a..b''
   \<and> \<not> validateAccountId ''a--b'' \<and> \<not> validateAccountId ''-ab'' \<and> \<not> validateAccountId ''ab_''
   \<and> \<not> validateAccountId ''.ab'' \<and> \<not> validateAccountId ''ab.''
   \<and> (length s = 65 \<longrightarrow> \<not> validateAccountId s)"
  using validateAccountId_spec [of s] validateAccountId_examples
  by (simp add: validateAccountId_def)

theorem validateAccountId_grammar_witness:
  "length (replicate 65 (CHR ''a'')) = 65
   \<and> \<not> validateAccountId (replicate 65 (CHR ''a''))
   \<and> spec_account_id ''alice.near''
   \<and> \<not> spec_account_id ''a..b''"
proof -
  have len: "length (replicate 65 (CHR ''a'')) = 65" by simp
  have long: "\<not> validateAccountId (replicate 65 (CHR ''a''))"
    using validateAccountId_grammar [of "replicate 65 (CHR ''a'')"] len by blast
  have alice: "spec_account_id ''alice.near''"
    using validateAccountId_grammar [of "''alice.near''"] by blast
  have empty_label: "\<not> spec_account_id ''a..b''"
    using validateAccountId_grammar [of "''a..b''"] by blast
  from len long alice empty_label show ?thesis by blast
qed

end
